theory Spec2Isabelle
  imports Main "HOL-Library.Sublist" "HOL-Library.Char_ord" "HOL-Library.List_Lexorder"
    "HOL-Library.Multiset"
begin

section \<open>Python strings\<close>

text \<open>
  The waitlist server (\<^verbatim>\<open>backend/server.py\<close>) works on Python \<^verbatim>\<open>str\<close> values. A
  \<^typ>\<open>char\<close> stands for a code point below 256, the range on which \<^verbatim>\<open>str\<close> and
  \<^typ>\<open>string\<close> agree; the character classes below are Python's, cut to that range.
\<close>

definition dquote :: char where
  "dquote = CHR 0x22"

definition squote :: char where
  "squote = CHR 0x27"

definition backslash :: char where
  "backslash = CHR 0x5C"

definition newline :: char where
  "newline = CHR 0x0A"

text \<open>The code points for which \<^verbatim>\<open>str.isspace\<close> holds; \<^verbatim>\<open>str.strip()\<close> and the
  regular expression class \<^verbatim>\<open>\s\<close> both use this set.\<close>

definition whitespace :: string where
  "whitespace = [CHR 0x09, CHR 0x0A, CHR 0x0B, CHR 0x0C, CHR 0x0D, CHR 0x1C, CHR 0x1D,
     CHR 0x1E, CHR 0x1F, CHR 0x20, CHR 0x85, CHR 0xA0]"

definition isspace :: "char \<Rightarrow> bool" where
  "isspace c = (c \<in> set whitespace)"

text \<open>\<^verbatim>\<open>s.strip()\<close>, and \<^verbatim>\<open>s.rstrip(chars)\<close>.\<close>

definition strip :: "string \<Rightarrow> string" where
  "strip s = rev (dropWhile isspace (rev (dropWhile isspace s)))"

definition rstrip :: "string \<Rightarrow> string \<Rightarrow> string" where
  "rstrip chars s = rev (dropWhile (\<lambda>c. c \<in> set chars) (rev s))"

text \<open>\<^verbatim>\<open>s.lower()\<close>: the upper-case letters of the range and their lower-case partners.\<close>

definition uppercase :: string where
  "uppercase = ''ABCDEFGHIJKLMNOPQRSTUVWXYZ'' @
     [CHR 0xC0, CHR 0xC1, CHR 0xC2, CHR 0xC3, CHR 0xC4, CHR 0xC5, CHR 0xC6, CHR 0xC7,
      CHR 0xC8, CHR 0xC9, CHR 0xCA, CHR 0xCB, CHR 0xCC, CHR 0xCD, CHR 0xCE, CHR 0xCF,
      CHR 0xD0, CHR 0xD1, CHR 0xD2, CHR 0xD3, CHR 0xD4, CHR 0xD5, CHR 0xD6,
      CHR 0xD8, CHR 0xD9, CHR 0xDA, CHR 0xDB, CHR 0xDC, CHR 0xDD, CHR 0xDE]"

definition lowercase :: string where
  "lowercase = ''abcdefghijklmnopqrstuvwxyz'' @
     [CHR 0xE0, CHR 0xE1, CHR 0xE2, CHR 0xE3, CHR 0xE4, CHR 0xE5, CHR 0xE6, CHR 0xE7,
      CHR 0xE8, CHR 0xE9, CHR 0xEA, CHR 0xEB, CHR 0xEC, CHR 0xED, CHR 0xEE, CHR 0xEF,
      CHR 0xF0, CHR 0xF1, CHR 0xF2, CHR 0xF3, CHR 0xF4, CHR 0xF5, CHR 0xF6,
      CHR 0xF8, CHR 0xF9, CHR 0xFA, CHR 0xFB, CHR 0xFC, CHR 0xFD, CHR 0xFE]"

definition lower_char :: "char \<Rightarrow> char" where
  "lower_char c = (case map_of (zip uppercase lowercase) c of Some d \<Rightarrow> d | None \<Rightarrow> c)"

definition lower :: "string \<Rightarrow> string" where
  "lower s = map lower_char s"

text \<open>\<^verbatim>\<open>sub in s\<close> on strings, \<^verbatim>\<open>sep.join(xs)\<close> and \<^verbatim>\<open>s.replace(old, new)\<close>.\<close>

fun contains :: "string \<Rightarrow> string \<Rightarrow> bool" where
  "contains sub [] = (sub = [])"
| "contains sub (c # cs) = (prefix sub (c # cs) \<or> contains sub cs)"

fun join :: "string \<Rightarrow> string list \<Rightarrow> string" where
  "join sep [] = []"
| "join sep [x] = x"
| "join sep (x # y # ys) = x @ sep @ join sep (y # ys)"

fun replace_from :: "string \<Rightarrow> string \<Rightarrow> string \<Rightarrow> string" where
  "replace_from old new [] = []"
| "replace_from old new (c # cs) =
     (if old \<noteq> [] \<and> prefix old (c # cs)
      then new @ replace_from old new (drop (length old - 1) cs)
      else c # replace_from old new cs)"

definition replace :: "string \<Rightarrow> string \<Rightarrow> string \<Rightarrow> string" where
  "replace old new s =
     (if old = [] then new @ concat (map (\<lambda>c. c # new) s) else replace_from old new s)"

text \<open>\<^verbatim>\<open>s.isdigit()\<close>: non-empty and every character a digit. Besides the ten decimal
  digits the range holds three more characters with the digit property, the superscripts
  one, two and three; \<^verbatim>\<open>int\<close> accepts none of them.\<close>

definition decimal_digits :: string where
  "decimal_digits = ''0123456789''"

definition superscript_digits :: string where
  "superscript_digits = [CHR 0xB2, CHR 0xB3, CHR 0xB9]"

definition isdigit :: "string \<Rightarrow> bool" where
  "isdigit s = (s \<noteq> [] \<and> list_all (\<lambda>c. c \<in> set (decimal_digits @ superscript_digits)) s)"

text \<open>\<^verbatim>\<open>int(s)\<close> on a string, \<open>None\<close> for \<^verbatim>\<open>ValueError\<close>: surrounding blanks are
  dropped, then an optional sign, then decimal digits, where single underscores may stand
  between digits. The blanks \<^verbatim>\<open>int\<close> drops are the six ASCII ones and the two above
  127. A string with more digits than the interpreter's cap (4300 by default, leading
  zeros counted) is refused with \<^verbatim>\<open>ValueError\<close> as well.\<close>

definition int_max_str_digits :: nat where
  "int_max_str_digits = 4300"

definition int_blank :: "char \<Rightarrow> bool" where
  "int_blank c = (c \<in> set [CHR 0x09, CHR 0x0A, CHR 0x0B, CHR 0x0C, CHR 0x0D, CHR 0x20,
     CHR 0x85, CHR 0xA0])"

definition digit_value :: "char \<Rightarrow> nat option" where
  "digit_value c = map_of (zip decimal_digits [0, 1, 2, 3, 4, 5, 6, 7, 8, 9]) c"

fun int_digits :: "nat \<Rightarrow> bool \<Rightarrow> string \<Rightarrow> nat option" where
  "int_digits acc after_digit [] = (if after_digit then Some acc else None)"
| "int_digits acc after_digit (c # cs) =
     (case digit_value c of
        Some d \<Rightarrow> int_digits (10 * acc + d) True cs
      | None \<Rightarrow> if c = CHR ''_'' \<and> after_digit then int_digits acc False cs else None)"

definition py_int :: "string \<Rightarrow> int option" where
  "py_int s =
     (case rev (dropWhile int_blank (rev (dropWhile int_blank s))) of
        [] \<Rightarrow> None
      | c # cs \<Rightarrow>
          if int_max_str_digits < length (filter (\<lambda>x. x \<in> set decimal_digits) (c # cs))
          then None
          else if c = CHR ''-'' then map_option (\<lambda>n. - int n) (int_digits 0 False cs)
          else if c = CHR ''+'' then map_option int (int_digits 0 False cs)
          else map_option int (int_digits 0 False (c # cs)))"

text \<open>\<^verbatim>\<open>str(n)\<close> for an integer.\<close>

fun show_nat :: "nat \<Rightarrow> string" where
  "show_nat n =
     (if n < 10 then [decimal_digits ! n]
      else show_nat (n div 10) @ [decimal_digits ! (n mod 10)])"

definition show_int :: "int \<Rightarrow> string" where
  "show_int i = (if i < 0 then CHR ''-'' # show_nat (nat (- i)) else show_nat (nat i))"

section \<open>JSON values and their string form\<close>

text \<open>
  What \<^verbatim>\<open>json.loads\<close> returns: \<^verbatim>\<open>None\<close>, a bool, an int, a float, a string, a list or
  a dict with string keys (an association list in key order). The program never
  computes with a float, it only prints one, so a float is carried as the text
  \<^verbatim>\<open>repr\<close> gives for it.
\<close>

datatype json =
    JNull
  | JBool bool
  | JInt int
  | JFloat string
  | JStr string
  | JList "json list"
  | JDict "(string \<times> json) list"

text \<open>\<^verbatim>\<open>repr\<close> of a string: double quotes when the string holds a single quote and no
  double quote, single quotes otherwise; the quote and the backslash are escaped, tab,
  line feed and carriage return are written as letters, every other unprintable code
  point as \<^verbatim>\<open>\xNN\<close>.\<close>

definition printable :: "char \<Rightarrow> bool" where
  "printable c =
     (let n = (of_char c :: nat) in (32 \<le> n \<and> n < 127) \<or> (161 \<le> n \<and> n \<noteq> 173))"

definition hex2 :: "char \<Rightarrow> string" where
  "hex2 c =
     (let n = (of_char c :: nat)
      in [''0123456789abcdef'' ! (n div 16), ''0123456789abcdef'' ! (n mod 16)])"

definition repr_char :: "char \<Rightarrow> char \<Rightarrow> string" where
  "repr_char q c =
     (if c = q \<or> c = backslash then [backslash, c]
      else if c = CHR 0x09 then [backslash, CHR ''t'']
      else if c = CHR 0x0A then [backslash, CHR ''n'']
      else if c = CHR 0x0D then [backslash, CHR ''r'']
      else if \<not> printable c then [backslash, CHR ''x''] @ hex2 c
      else [c])"

definition repr_str :: "string \<Rightarrow> string" where
  "repr_str s =
     (let q = (if squote \<in> set s \<and> dquote \<notin> set s then dquote else squote)
      in q # concat (map (repr_char q) s) @ [q])"

fun repr :: "json \<Rightarrow> string" where
  "repr JNull = ''None''"
| "repr (JBool b) = (if b then ''True'' else ''False'')"
| "repr (JInt i) = show_int i"
| "repr (JFloat t) = t"
| "repr (JStr s) = repr_str s"
| "repr (JList xs) = ''['' @ join '', '' (map repr xs) @ '']''"
| "repr (JDict kvs) =
     ''{'' @ join '', '' (map (\<lambda>kv. repr_str (fst kv) @ '': '' @ repr (snd kv)) kvs) @ ''}''"

text \<open>\<^verbatim>\<open>str(value)\<close>: a string is itself, anything else prints as its \<^verbatim>\<open>repr\<close>.\<close>

definition py_str :: "json \<Rightarrow> string" where
  "py_str v = (case v of JStr s \<Rightarrow> s | _ \<Rightarrow> repr v)"

text \<open>\<^verbatim>\<open>d.get(key)\<close> on a dict: the value, or \<^verbatim>\<open>None\<close>.\<close>

definition dict_get :: "(string \<times> json) list \<Rightarrow> string \<Rightarrow> json" where
  "dict_get d k = (case map_of d k of Some v \<Rightarrow> v | None \<Rightarrow> JNull)"

section \<open>The email pattern\<close>

text \<open>
  \<^verbatim>\<open>EMAIL_PATTERN = re.compile(r"^[^\s@]+@[^\s@]+\.[^\s@]+$")\<close>. A pattern is a regular
  expression over character classes; \<open>Plus1\<close> is the postfix \<^verbatim>\<open>+\<close>. Matching runs
  the pattern's derivative over the input, one character at a time.
\<close>

datatype rx = Fail | Eps | Cls "char \<Rightarrow> bool" | Seq rx rx | Alt rx rx | Star rx | Plus1 rx

fun nullable :: "rx \<Rightarrow> bool" where
  "nullable Fail = False"
| "nullable Eps = True"
| "nullable (Cls p) = False"
| "nullable (Seq r s) = (nullable r \<and> nullable s)"
| "nullable (Alt r s) = (nullable r \<or> nullable s)"
| "nullable (Star r) = True"
| "nullable (Plus1 r) = nullable r"

fun deriv :: "char \<Rightarrow> rx \<Rightarrow> rx" where
  "deriv c Fail = Fail"
| "deriv c Eps = Fail"
| "deriv c (Cls p) = (if p c then Eps else Fail)"
| "deriv c (Seq r s) =
     (if nullable r then Alt (Seq (deriv c r) s) (deriv c s) else Seq (deriv c r) s)"
| "deriv c (Alt r s) = Alt (deriv c r) (deriv c s)"
| "deriv c (Star r) = Seq (deriv c r) (Star r)"
| "deriv c (Plus1 r) = Seq (deriv c r) (Star r)"

fun rx_match :: "rx \<Rightarrow> string \<Rightarrow> bool" where
  "rx_match r [] = nullable r"
| "rx_match r (c # cs) = rx_match (deriv c r) cs"

text \<open>\<^verbatim>\<open>pattern.match(s)\<close> for a pattern written \<^verbatim>\<open>^r$\<close>: the whole of \<open>s\<close> is in the
  language of \<open>r\<close>, or \<open>s\<close> ends in a line feed and the rest is (\<^verbatim>\<open>$\<close> also matches
  just before a final line feed).\<close>

definition match_anchored :: "rx \<Rightarrow> string \<Rightarrow> bool" where
  "match_anchored r s =
     (rx_match r s \<or> (s \<noteq> [] \<and> last s = newline \<and> rx_match r (butlast s)))"

definition not_space_not_at :: "char \<Rightarrow> bool" where
  "not_space_not_at c = (\<not> isspace c \<and> c \<noteq> CHR ''@'')"

definition EMAIL_PATTERN :: rx where
  "EMAIL_PATTERN =
     Seq (Plus1 (Cls not_space_not_at))
       (Seq (Cls (\<lambda>c. c = CHR ''@''))
         (Seq (Plus1 (Cls not_space_not_at))
           (Seq (Cls (\<lambda>c. c = CHR ''.'')) (Plus1 (Cls not_space_not_at)))))"

section \<open>Sanitizers\<close>

text \<open>\<^verbatim>\<open>WaitlistHandler._sanitize_name\<close> and \<^verbatim>\<open>_sanitize_email\<close>; \<open>None\<close> is Python's
  \<^verbatim>\<open>None\<close>. The argument is what \<^verbatim>\<open>payload.get\<close> gave, any JSON value.\<close>

definition sanitize_name :: "json \<Rightarrow> string option" where
  "sanitize_name v =
     (if v = JNull then None
      else let cleaned = strip (py_str v)
           in if 2 \<le> length cleaned then Some cleaned else None)"

definition sanitize_email :: "json \<Rightarrow> string option" where
  "sanitize_email v =
     (if v = JNull then None
      else let candidate = lower (strip (py_str v))
           in if match_anchored EMAIL_PATTERN candidate then Some candidate else None)"

section \<open>The storage backend\<close>

text \<open>
  The \<^verbatim>\<open>waitlist\<close> table: name, email (unique) and the creation time the database
  fills in. The surrogate key is never read by the program and is left out; the rows are
  kept in insertion order. A creation time is the text the database stores or prints
  for it, and such texts compare as the times do. \<open>variant\<close> is the module's choice
  between the pooled PostgreSQL connection and the SQLite file. The engine is a table
  with \<^verbatim>\<open>COUNT\<close>, \<^verbatim>\<open>ORDER BY\<close>, \<^verbatim>\<open>LIMIT\<close> and a unique column. Its integers have 64
  bits: a limit of \<open>2 ^ 63\<close> or more is refused, by the SQLite driver when it binds the
  parameter (\<^verbatim>\<open>OverflowError\<close>) and by PostgreSQL when it reads the number
  (\<^verbatim>\<open>bigint out of range\<close>). A NUL character in a text, which the PostgreSQL driver
  refuses, is not part of the model.
\<close>

record entry =
  name :: string
  email :: string
  created_at :: string

datatype variant = Pooled | Embedded

record db =
  variant :: variant
  table :: "entry list"

text \<open>
  What a request finds around it: the reading of the database clock, and the storage
  failures it meets. \<open>fault env k = Some msg\<close> says that the request's call number \<open>k\<close>
  to the backend raises an error with text \<open>msg\<close> (a lost connection, an exhausted pool)
  and leaves the table as it was.
\<close>

record env =
  now :: string
  fault :: "nat \<Rightarrow> string option"

datatype db_error =
    IntegrityError string
  | OperationalError string
  | OverflowError string
  | DataError string

text \<open>\<^verbatim>\<open>str(e)\<close> for a storage error.\<close>

fun error_text :: "db_error \<Rightarrow> string" where
  "error_text (IntegrityError msg) = msg"
| "error_text (OperationalError msg) = msg"
| "error_text (OverflowError msg) = msg"
| "error_text (DataError msg) = msg"

text \<open>The text of the unique-constraint violation, as each engine words it.\<close>

fun unique_violation :: "variant \<Rightarrow> string \<Rightarrow> string" where
  "unique_violation Embedded em = ''UNIQUE constraint failed: waitlist.email''"
| "unique_violation Pooled em =
     ''duplicate key value violates unique constraint '' @ [dquote] @ ''waitlist_email_key'' @
     [dquote] @ [newline] @ ''DETAIL:  Key (email)=('' @ em @ '') already exists.'' @ [newline]"

definition waitlist_count :: "string option \<Rightarrow> db \<Rightarrow> db_error + int" where
  "waitlist_count flt d =
     (case flt of
        Some msg \<Rightarrow> Inl (OperationalError msg)
      | None \<Rightarrow> Inr (int (length (table d))))"

text \<open>What each variant raises for a limit that does not fit 64 bits.\<close>

definition sql_integer_bound :: int where
  "sql_integer_bound = 2 ^ 63"

fun limit_out_of_range :: "variant \<Rightarrow> db_error" where
  "limit_out_of_range Embedded =
     OverflowError ''Python int too large to convert to SQLite INTEGER''"
| "limit_out_of_range Pooled = DataError (''bigint out of range'' @ [newline])"

text \<open>\<^verbatim>\<open>ORDER BY created_at DESC\<close>. SQL leaves the order of rows with equal creation
  times open; here they keep their insertion order.\<close>

definition order_by_created_at_desc :: "entry list \<Rightarrow> entry list" where
  "order_by_created_at_desc es = rev (sort_key created_at (rev es))"

definition waitlist_entries :: "string option \<Rightarrow> int option \<Rightarrow> db \<Rightarrow> db_error + entry list" where
  "waitlist_entries flt limit d =
     (case flt of
        Some msg \<Rightarrow> Inl (OperationalError msg)
      | None \<Rightarrow>
          (case limit of
             Some n \<Rightarrow>
               if 0 < n
               then (if sql_integer_bound \<le> n then Inl (limit_out_of_range (variant d))
                     else Inr (take (nat n) (order_by_created_at_desc (table d))))
               else Inr (order_by_created_at_desc (table d))
           | None \<Rightarrow> Inr (order_by_created_at_desc (table d))))"

text \<open>\<^verbatim>\<open>insert_waitlist_record({"name": nm, "email": em})\<close>: the new table, or the error
  raised and the table as it was (both variants roll a failed insert back).\<close>

definition insert_waitlist_record ::
  "string option \<Rightarrow> string \<Rightarrow> string \<Rightarrow> string \<Rightarrow> db \<Rightarrow> (db_error + unit) \<times> db" where
  "insert_waitlist_record flt clock nm em d =
     (case flt of
        Some msg \<Rightarrow> (Inl (OperationalError msg), d)
      | None \<Rightarrow>
          if em \<in> set (map email (table d))
          then (Inl (IntegrityError (unique_violation (variant d) em)), d)
          else (Inr (), d\<lparr>table := table d @ [\<lparr>name = nm, email = em, created_at = clock\<rparr>]\<rparr>))"

section \<open>Requests and responses\<close>

text \<open>
  A request as the handler reads it: \<open>path\<close> is \<^verbatim>\<open>self.path\<close>, the raw request target;
  \<open>url_path\<close> is \<^verbatim>\<open>urlparse(self.path).path\<close> and \<open>query k\<close> the first value
  \<^verbatim>\<open>parse_qs(urlparse(self.path).query)\<close> holds for \<open>k\<close> (its value lists are never
  empty); \<open>origin\<close> and \<open>content_length\<close> are \<^verbatim>\<open>self.headers.get\<close> of the two headers;
  \<open>rfile n\<close> is what \<^verbatim>\<open>json.loads(self.rfile.read(n).decode("utf-8"))\<close> returns or
  raises (\<open>OtherException\<close> carries the class name of an exception that has no
  constructor of its own). The request line and the headers are those of a request the
  base class has parsed.
\<close>

datatype exn =
    JSONDecodeError
  | UnicodeDecodeError
  | RecursionError
  | AttributeError
  | ValueError
  | DatabaseError db_error
  | OtherException string

record request =
  path :: string
  url_path :: string
  query :: "string \<Rightarrow> string option"
  origin :: "string option"
  content_length :: "string option"
  rfile :: "nat \<Rightarrow> exn + json"

text \<open>A response: the status, the headers the handler sends itself, and the body, which
  is the value handed to \<^verbatim>\<open>json.dumps\<close>, or text, or nothing. A handler either sends
  one response or lets an exception escape to the socket server, which sends none. The
  \<^verbatim>\<open>Server\<close> and \<^verbatim>\<open>Date\<close> headers of the base class and the log lines are left out.
  \<open>ErrorPage msg\<close> is the HTML page the base class writes for an error of its own, with
  the message \<open>msg\<close>.\<close>

datatype content = NoContent | JsonBody json | TextBody string | ErrorPage string

record response =
  status :: nat
  headers :: "(string \<times> string) list"
  body :: content

datatype outcome = Sent response | Raised exn

definition allowed_origin :: "request \<Rightarrow> string" where
  "allowed_origin req =
     (case origin req of
        None \<Rightarrow> ''*''
      | Some og \<Rightarrow> if og = [] then ''*'' else if og = ''null'' then ''*'' else og)"

definition cors_headers :: "request \<Rightarrow> (string \<times> string) list" where
  "cors_headers req =
     [(''Access-Control-Allow-Origin'', allowed_origin req),
      (''Access-Control-Allow-Headers'', ''Content-Type''),
      (''Access-Control-Allow-Methods'', ''POST, OPTIONS, GET'')]"

text \<open>\<^verbatim>\<open>_set_headers\<close> sends the status line and the headers; \<^verbatim>\<open>_json_response\<close> then
  writes the body.\<close>

definition set_headers :: "request \<Rightarrow> nat \<Rightarrow> string \<Rightarrow> response" where
  "set_headers req st content_type =
     \<lparr>status = st,
      headers = (''Content-Type'', content_type) # cors_headers req,
      body = NoContent\<rparr>"

definition json_response :: "request \<Rightarrow> json \<Rightarrow> nat \<Rightarrow> response" where
  "json_response req b st = (set_headers req st ''application/json'')\<lparr>body := JsonBody b\<rparr>"

definition do_OPTIONS :: "request \<Rightarrow> response" where
  "do_OPTIONS req = \<lparr>status = 204, headers = cors_headers req, body = NoContent\<rparr>"

section \<open>CSV export\<close>

text \<open>\<^verbatim>\<open>WaitlistHandler._send_csv\<close>. Every entry \<^verbatim>\<open>waitlist_entries\<close> builds has the
  three keys, so the defaults of \<^verbatim>\<open>entry.get\<close> are never used.\<close>

definition csv_value :: "string \<Rightarrow> string" where
  "csv_value v =
     (if contains '','' v \<or> contains [dquote] v then [dquote] @ v @ [dquote] else v)"

definition csv_line :: "entry \<Rightarrow> string" where
  "csv_line e =
     (let fields =
        [replace [dquote] [dquote, dquote] (name e),
         replace [dquote] [dquote, dquote] (email e),
         replace [dquote] [dquote, dquote] (created_at e)]
      in join '','' (map csv_value fields))"

definition csv_data :: "entry list \<Rightarrow> string" where
  "csv_data entries =
     join [newline] (join '','' [''name'', ''email'', ''created_at''] # map csv_line entries)"

definition send_csv :: "request \<Rightarrow> entry list \<Rightarrow> response" where
  "send_csv req entries =
     \<lparr>status = 200,
      headers =
        [(''Content-Type'', ''text/csv; charset=utf-8''),
         (''Content-Disposition'',
          ''attachment; filename='' @ [dquote] @ ''inbox-party-waitlist.csv'' @ [dquote])]
        @ cors_headers req,
      body = TextBody (csv_data entries)\<rparr>"

section \<open>The handler\<close>

definition entry_json :: "entry \<Rightarrow> json" where
  "entry_json e =
     JDict [(''name'', JStr (name e)), (''email'', JStr (email e)),
            (''created_at'', JStr (created_at e))]"

definition not_found :: "request \<Rightarrow> response" where
  "not_found req = json_response req (JDict [(''error'', JStr ''Not found'')]) 404"

text \<open>The \<^verbatim>\<open>limit\<close> query parameter as \<^verbatim>\<open>do_GET\<close> reads it.\<close>

definition limit_of :: "request \<Rightarrow> int option" where
  "limit_of req =
     (case query req ''limit'' of
        None \<Rightarrow> None
      | Some v \<Rightarrow>
          (case py_int v of
             None \<Rightarrow> None
           | Some n \<Rightarrow> if n \<le> 0 then None else Some n))"

definition do_GET :: "env \<Rightarrow> request \<Rightarrow> db \<Rightarrow> outcome" where
  "do_GET ev req d =
     (let p = (let t = rstrip ''/'' (url_path req) in if t = [] then ''/'' else t)
      in if p = ''/health'' \<or> p = ''/healthz''
         then Sent (json_response req (JDict [(''status'', JStr ''ok'')]) 200)
         else if p = ''/api/waitlist''
         then (case waitlist_count (fault ev 0) d of
                 Inl e \<Rightarrow> Raised (DatabaseError e)
               | Inr n \<Rightarrow> Sent (json_response req (JDict [(''count'', JInt n)]) 200))
         else if p = ''/api/waitlist/entries''
         then (let limit_value = limit_of req
               in case waitlist_entries (fault ev 0) limit_value d of
                    Inl e \<Rightarrow> Raised (DatabaseError e)
                  | Inr entries \<Rightarrow>
                      if lower (case query req ''format'' of None \<Rightarrow> ''json'' | Some f \<Rightarrow> f)
                           = ''csv''
                      then Sent (send_csv req entries)
                      else (case waitlist_count (fault ev 1) d of
                              Inl e \<Rightarrow> Raised (DatabaseError e)
                            | Inr n \<Rightarrow>
                                Sent (json_response req
                                  (JDict [(''entries'', JList (map entry_json entries)),
                                          (''count'', JInt n),
                                          (''limit'',
                                           case limit_value of None \<Rightarrow> JNull | Some l \<Rightarrow> JInt l)])
                                  200)))
         else Sent (not_found req))"

definition name_required :: "request \<Rightarrow> response" where
  "name_required req =
     json_response req
       (JDict [(''error'', JStr ''Please share your name so we can personalize the rollout.'')])
       400"

definition email_required :: "request \<Rightarrow> response" where
  "email_required req =
     json_response req
       (JDict [(''error'', JStr ''A valid email is required to join the waitlist.'')]) 400"

definition already_listed :: "request \<Rightarrow> int \<Rightarrow> response" where
  "already_listed req n =
     json_response req
       (JDict [(''message'', JStr ''This email is already on the waitlist.''),
               (''count'', JInt n)]) 409"

definition joined :: "request \<Rightarrow> string \<Rightarrow> int \<Rightarrow> response" where
  "joined req em n =
     json_response req
       (JDict [(''message'',
                JStr (''You'' @ [squote] @ ''re on the waitlist! We'' @ [squote] @
                      ''ll reach out as invites roll out.'')),
               (''email'', JStr em),
               (''count'', JInt n)]) 201"

text \<open>The part of \<^verbatim>\<open>do_POST\<close> after both fields passed: the insert and its
  \<^verbatim>\<open>except Exception\<close> clause.\<close>

definition store_signup :: "env \<Rightarrow> request \<Rightarrow> string \<Rightarrow> string \<Rightarrow> db \<Rightarrow> outcome \<times> db" where
  "store_signup ev req nm em d =
     (case insert_waitlist_record (fault ev 0) (now ev) nm em d of
        (Inl e, d') \<Rightarrow>
          (let error_msg = lower (error_text e)
           in if contains ''unique'' error_msg \<or> contains ''duplicate'' error_msg
              then (case waitlist_count (fault ev 1) d' of
                      Inl e' \<Rightarrow> (Raised (DatabaseError e'), d')
                    | Inr n \<Rightarrow> (Sent (already_listed req n), d'))
              else (Sent (json_response req
                      (JDict [(''error'', JStr ''We hit a snag saving your request.'')]) 500), d'))
      | (Inr u, d') \<Rightarrow>
          (case waitlist_count (fault ev 1) d' of
             Inl e' \<Rightarrow> (Raised (DatabaseError e'), d')
           | Inr n \<Rightarrow> (Sent (joined req em n), d')))"

text \<open>\<^verbatim>\<open>payload.get\<close> exists on a dict only: on any other JSON value the attribute
  lookup raises \<^verbatim>\<open>AttributeError\<close>.\<close>

definition do_POST :: "env \<Rightarrow> request \<Rightarrow> db \<Rightarrow> outcome \<times> db" where
  "do_POST ev req d =
     (if rstrip ''/'' (path req) \<noteq> ''/api/waitlist'' then (Sent (not_found req), d)
      else case content_length req of
        None \<Rightarrow>
          (Sent (json_response req (JDict [(''error'', JStr ''Missing Content-Length'')]) 411), d)
      | Some length_header \<Rightarrow>
          if length_header = [] \<or> \<not> isdigit length_header
          then (Sent (json_response req
                  (JDict [(''error'', JStr ''Missing Content-Length'')]) 411), d)
          else (case py_int length_header of
                  None \<Rightarrow> (Raised ValueError, d)
                | Some n \<Rightarrow>
                    (case rfile req (nat n) of
                       Inl JSONDecodeError \<Rightarrow>
                         (Sent (json_response req
                            (JDict [(''error'', JStr ''Invalid JSON payload'')]) 400), d)
                     | Inl e \<Rightarrow> (Raised e, d)
                     | Inr (JDict payload) \<Rightarrow>
                         (let nm = sanitize_name (dict_get payload ''name'');
                              em = sanitize_email (dict_get payload ''email'')
                          in case nm of
                               None \<Rightarrow> (Sent (name_required req), d)
                             | Some nm' \<Rightarrow>
                                 if nm' = [] then (Sent (name_required req), d)
                                 else (case em of
                                         None \<Rightarrow> (Sent (email_required req), d)
                                       | Some em' \<Rightarrow>
                                           if em' = [] then (Sent (email_required req), d)
                                           else store_signup ev req nm' em' d))
                     | Inr other \<Rightarrow> (Raised AttributeError, d))))"

text \<open>
  Dispatch is the base class's: \<^verbatim>\<open>handle_one_request\<close> looks up the method
  \<^verbatim>\<open>do_\<close> followed by the request's command and calls it. The handler defines three of
  them. For any other command the base class answers itself, with \<^verbatim>\<open>send_error(501)\<close>:
  an HTML error page (no page for \<^verbatim>\<open>HEAD\<close>) under the headers \<^verbatim>\<open>Connection\<close>,
  \<^verbatim>\<open>Content-Type\<close> and \<^verbatim>\<open>Content-Length\<close>, of which the last is left out here with the
  text of the page.
\<close>

definition unsupported_method :: "string \<Rightarrow> response" where
  "unsupported_method command =
     \<lparr>status = 501,
      headers = [(''Connection'', ''close''), (''Content-Type'', ''text/html;charset=utf-8'')],
      body = (if command = ''HEAD'' then NoContent
              else ErrorPage (''Unsupported method ('' @ repr_str command @ '')''))\<rparr>"

definition handle :: "env \<Rightarrow> string \<Rightarrow> request \<Rightarrow> db \<Rightarrow> outcome \<times> db" where
  "handle ev command req d =
     (if command = ''GET'' then (do_GET ev req d, d)
      else if command = ''POST'' then do_POST ev req d
      else if command = ''OPTIONS'' then (Sent (do_OPTIONS req), d)
      else (Sent (unsupported_method command), d))"

section \<open>What the specification says\<close>

text \<open>
  The words of the specification, as predicates of their own, to compare the code with.
  \<open>trimmed s t\<close>: \<open>t\<close> is \<open>s\<close> without its surrounding whitespace. \<open>email_shape s\<close>: one or
  more characters that are neither whitespace nor \<^verbatim>\<open>@\<close>, then \<^verbatim>\<open>@\<close>, then one or more
  such characters, then a dot, then one or more such characters. \<open>newest_first es\<close>: no
  entry of \<open>es\<close> is older than one that comes after it.
\<close>

definition trimmed :: "string \<Rightarrow> string \<Rightarrow> bool" where
  "trimmed s t =
     (\<exists>l r. s = l @ t @ r \<and> list_all isspace l \<and> list_all isspace r \<and>
            (t = [] \<or> (\<not> isspace (hd t) \<and> \<not> isspace (last t))))"

definition email_shape :: "string \<Rightarrow> bool" where
  "email_shape s =
     (\<exists>a b c. s = a @ ''@'' @ b @ ''.'' @ c \<and> a \<noteq> [] \<and> b \<noteq> [] \<and> c \<noteq> [] \<and>
              list_all (\<lambda>x. \<not> isspace x \<and> x \<noteq> CHR ''@'') (a @ b @ c))"

definition newest_first :: "entry list \<Rightarrow> bool" where
  "newest_first es = sorted_wrt (\<lambda>a b. created_at b \<le> created_at a) es"

text \<open>
  The CSV rules. \<open>quoted f\<close>: the field with every double quote doubled, wrapped in double
  quotes exactly when it holds a comma or a double quote. \<open>csv_row e\<close>: the three fields
  of an entry, comma-separated. \<open>lines_of s\<close>: the lines of a text, split at line feeds.
\<close>

definition quoted :: "string \<Rightarrow> string" where
  "quoted f =
     (let doubled = concat (map (\<lambda>c. if c = dquote then [dquote, dquote] else [c]) f)
      in if CHR '','' \<in> set f \<or> dquote \<in> set f then [dquote] @ doubled @ [dquote] else f)"

definition csv_row :: "entry \<Rightarrow> string" where
  "csv_row e = quoted (name e) @ '','' @ quoted (email e) @ '','' @ quoted (created_at e)"

fun lines_of :: "string \<Rightarrow> string list" where
  "lines_of [] = [[]]"
| "lines_of (c # cs) =
     (if c = newline then [] # lines_of cs
      else (case lines_of cs of [] \<Rightarrow> [[c]] | l # ls \<Rightarrow> (c # l) # ls))"

text \<open>The language of a pattern, for the proof that the matcher decides it.\<close>

inductive in_lang :: "rx \<Rightarrow> string \<Rightarrow> bool" where
  Eps: "in_lang Eps []"
| Cls: "p c \<Longrightarrow> in_lang (Cls p) [c]"
| Seq: "in_lang r u \<Longrightarrow> in_lang s v \<Longrightarrow> in_lang (Seq r s) (u @ v)"
| AltL: "in_lang r u \<Longrightarrow> in_lang (Alt r s) u"
| AltR: "in_lang s u \<Longrightarrow> in_lang (Alt r s) u"
| Star0: "in_lang (Star r) []"
| StarS: "in_lang r u \<Longrightarrow> in_lang (Star r) v \<Longrightarrow> in_lang (Star r) (u @ v)"
| Plus1: "in_lang r u \<Longrightarrow> in_lang (Star r) v \<Longrightarrow> in_lang (Plus1 r) (u @ v)"

section \<open>Requests that reach the insert\<close>

text \<open>
  \<open>healthy ev\<close>: the backend raises nothing of its own during the request.
  \<open>passes_validation req nm em\<close>: \<^verbatim>\<open>do_POST\<close> gets past its checks on \<open>req\<close> (the path,
  the \<^verbatim>\<open>Content-Length\<close> header, the JSON body, the two sanitizers) and calls the insert
  with the name \<open>nm\<close> and the normalized email \<open>em\<close>.
\<close>

definition healthy :: "env \<Rightarrow> bool" where
  "healthy ev = (\<forall>k. fault ev k = None)"

definition passes_validation :: "request \<Rightarrow> string \<Rightarrow> string \<Rightarrow> bool" where
  "passes_validation req nm em =
     (rstrip ''/'' (path req) = ''/api/waitlist'' \<and>
      (\<exists>len n payload.
          content_length req = Some len \<and> isdigit len \<and> py_int len = Some n \<and>
          rfile req (nat n) = Inr (JDict payload) \<and>
          sanitize_name (dict_get payload ''name'') = Some nm \<and>
          sanitize_email (dict_get payload ''email'') = Some em))"

section \<open>Worked examples\<close>

text \<open>
  Inputs for the examples: a backend that raises nothing and one whose every call fails
  with the given text; three rows and a row whose name holds a line feed; a sign-up
  request whose JSON body holds the two fields, a listing request with the given query,
  the count route, a preflight with the given \<^verbatim>\<open>Origin\<close> header, a POST whose
  \<^verbatim>\<open>Content-Length\<close> is the superscript two and a POST whose body is the JSON list
  \<^verbatim>\<open>[]\<close>; a store that holds one sign-up, and a backend on which the insert works and
  the count that follows it fails.
\<close>

definition quiet :: "string \<Rightarrow> env" where
  "quiet clock = \<lparr>now = clock, fault = (\<lambda>k. None)\<rparr>"

definition failing :: "string \<Rightarrow> env" where
  "failing msg = \<lparr>now = ''2024-05-03 08:00:00'', fault = (\<lambda>k. Some msg)\<rparr>"

definition ada :: entry where
  "ada = \<lparr>name = ''Ada'', email = ''ada@x.org'', created_at = ''2024-05-01 10:00:00''\<rparr>"

definition bob :: entry where
  "bob = \<lparr>name = ''Bob'', email = ''bob@x.org'', created_at = ''2024-05-01 10:00:05''\<rparr>"

definition cyd :: entry where
  "cyd = \<lparr>name = ''Cyd'', email = ''cyd@x.org'', created_at = ''2024-05-02 09:30:00''\<rparr>"

definition multiline :: entry where
  "multiline = \<lparr>name = ''A'' @ [newline] @ ''B'', email = ''a@b.c'', created_at = ''t''\<rparr>"

definition signup_request :: "json \<Rightarrow> json \<Rightarrow> request" where
  "signup_request nm em =
     \<lparr>path = ''/api/waitlist'', url_path = ''/api/waitlist'', query = Map.empty,
      origin = None, content_length = Some ''42'',
      rfile = (\<lambda>n. Inr (JDict [(''name'', nm), (''email'', em)]))\<rparr>"

definition entries_request :: "(string \<Rightarrow> string option) \<Rightarrow> request" where
  "entries_request q =
     \<lparr>path = ''/api/waitlist/entries'', url_path = ''/api/waitlist/entries'', query = q,
      origin = None, content_length = None, rfile = (\<lambda>n. Inl JSONDecodeError)\<rparr>"

definition count_request :: request where
  "count_request =
     \<lparr>path = ''/api/waitlist'', url_path = ''/api/waitlist'', query = Map.empty,
      origin = None, content_length = None, rfile = (\<lambda>n. Inl JSONDecodeError)\<rparr>"


definition superscript_length_request :: request where
  "superscript_length_request =
     \<lparr>path = ''/api/waitlist'', url_path = ''/api/waitlist'', query = Map.empty,
      origin = None, content_length = Some [CHR 0xB2], rfile = (\<lambda>n. Inr (JDict []))\<rparr>"

definition list_body_request :: request where
  "list_body_request =
     \<lparr>path = ''/api/waitlist'', url_path = ''/api/waitlist'', query = Map.empty,
      origin = None, content_length = Some ''2'', rfile = (\<lambda>n. Inr (JList []))\<rparr>"

definition one_signup :: db where
  "one_signup =
     \<lparr>variant = Embedded,
      table = [\<lparr>name = ''Ada'', email = ''foo@bar.com'', created_at = ''2024-05-01 10:00:00''\<rparr>]\<rparr>"

definition count_failing :: env where
  "count_failing =
     \<lparr>now = ''2024-05-03 08:00:00'',
      fault = (\<lambda>k. if k = 1 then Some ''connection lost'' else None)\<rparr>"

section \<open>Facts about the string functions\<close>

subsection \<open>strip\<close>

lemma dropWhile_rev_ends:
  "rev (dropWhile P (rev xs)) \<noteq> [] \<Longrightarrow> \<not> P (last (rev (dropWhile P (rev xs))))"
  by (metis hd_dropWhile last_rev rev_is_Nil_conv)

lemma strip_last: "strip s \<noteq> [] \<Longrightarrow> \<not> isspace (last (strip s))"
  unfolding strip_def by (rule dropWhile_rev_ends)

lemma rev_dropWhile_rev_prefix:
  "\<exists>r. xs = rev (dropWhile P (rev xs)) @ r \<and> list_all P r"
proof -
  have "rev xs = takeWhile P (rev xs) @ dropWhile P (rev xs)" by simp
  then have "xs = rev (dropWhile P (rev xs)) @ rev (takeWhile P (rev xs))"
    by (metis rev_append rev_rev_ident)
  moreover have "list_all P (rev (takeWhile P (rev xs)))"
    by (simp add: list_all_iff) (meson set_takeWhileD)
  ultimately show ?thesis by blast
qed

lemma hd_rev_dropWhile_rev:
  "xs \<noteq> [] \<Longrightarrow> \<not> P (hd xs) \<Longrightarrow> hd (rev (dropWhile P (rev xs))) = hd xs \<and> rev (dropWhile P (rev xs)) \<noteq> []"
proof -
  assume a: "xs \<noteq> []" "\<not> P (hd xs)"
  obtain r where r: "xs = rev (dropWhile P (rev xs)) @ r" "list_all P r"
    using rev_dropWhile_rev_prefix by blast
  have ne: "rev (dropWhile P (rev xs)) \<noteq> []"
  proof
    assume "rev (dropWhile P (rev xs)) = []"
    with r have "list_all P xs" by simp
    with a show False by (cases xs) simp_all
  qed
  with r(1) have "hd xs = hd (rev (dropWhile P (rev xs)))" by (metis hd_append2)
  with ne show ?thesis by simp
qed

lemma strip_hd: "strip s \<noteq> [] \<Longrightarrow> \<not> isspace (hd (strip s))"
proof -
  assume ne: "strip s \<noteq> []"
  let ?d = "dropWhile isspace s"
  from ne have d: "?d \<noteq> []" by (cases "?d = []") (simp_all add: strip_def)
  then have nh: "\<not> isspace (hd ?d)" by (rule hd_dropWhile)
  from hd_rev_dropWhile_rev[of ?d isspace, OF d nh] have "hd (strip s) = hd ?d" by (simp add: strip_def)
  with nh show ?thesis by simp
qed

lemma strip_trimmed: "trimmed s (strip s)"
proof -
  let ?d = "dropWhile isspace s"
  obtain r where r: "?d = strip s @ r" "list_all isspace r"
    using rev_dropWhile_rev_prefix[of ?d isspace] by (auto simp: strip_def)
  have "s = takeWhile isspace s @ ?d" by simp
  with r have "s = takeWhile isspace s @ strip s @ r" by simp
  moreover have "list_all isspace (takeWhile isspace s)"
    by (simp add: list_all_iff) (meson set_takeWhileD)
  ultimately show ?thesis
    unfolding trimmed_def using r(2) strip_hd strip_last by blast
qed

lemma strip_fixed:
  assumes "t = [] \<or> (\<not> isspace (hd t) \<and> \<not> isspace (last t))"
  shows "strip t = t"
proof (cases "t = []")
  case True
  then show ?thesis by (simp add: strip_def)
next
  case False
  with assms have h: "\<not> isspace (hd t)" and l: "\<not> isspace (last t)" by simp_all
  from False h have "dropWhile isspace t = t" by (cases t) simp_all
  moreover from False l have "dropWhile isspace (rev t) = rev t"
    by (cases "rev t") (simp_all add: hd_rev[symmetric])
  ultimately show ?thesis by (simp add: strip_def)
qed

lemma dropWhile_all_append: "list_all P l \<Longrightarrow> dropWhile P (l @ s) = dropWhile P s"
  by (induction l) simp_all

lemma strip_padding:
  assumes "list_all isspace l" "list_all isspace r"
  shows "strip (l @ s @ r) = strip s"
proof -
  have a: "dropWhile isspace (l @ s @ r) = dropWhile isspace (s @ r)"
    using assms(1) by (rule dropWhile_all_append)
  have b: "rev (dropWhile isspace (rev (dropWhile isspace (s @ r)))) = rev (dropWhile isspace (rev (dropWhile isspace s)))"
  proof (cases "list_all isspace s")
    case True
    then have "dropWhile isspace s = []" by (simp add: list_all_iff dropWhile_eq_Nil_conv)
    moreover from True assms(2) have "dropWhile isspace (s @ r) = []"
      by (simp add: list_all_iff dropWhile_eq_Nil_conv)
    ultimately show ?thesis by (simp only:)
  next
    case False
    then have "\<exists>x\<in>set s. \<not> isspace x" by (simp add: list_all_iff)
    then have "dropWhile isspace (s @ r) = dropWhile isspace s @ r"
      by (auto simp: dropWhile_append1)
    then have "rev (dropWhile isspace (s @ r)) = rev r @ rev (dropWhile isspace s)" by simp
    moreover have "list_all isspace (rev r)" using assms(2) by (simp add: list_all_iff)
    ultimately show ?thesis by (simp add: dropWhile_all_append)
  qed
  show ?thesis unfolding strip_def a b ..
qed

subsection \<open>lower\<close>

lemma length_upper_lower: "length uppercase = length lowercase"
  by (simp add: uppercase_def lowercase_def)

lemma lower_char_cases:
  "(c \<notin> set uppercase \<and> lower_char c = c) \<or> (c \<in> set uppercase \<and> lower_char c \<in> set lowercase)"
proof (cases "map_of (zip uppercase lowercase) c")
  case None
  then have "c \<notin> set uppercase"
    by (metis length_upper_lower map_of_zip_is_None)
  with None show ?thesis by (simp add: lower_char_def)
next
  case (Some d)
  then have "(c, d) \<in> set (zip uppercase lowercase)" by (rule map_of_SomeD)
  then have "c \<in> set uppercase" "d \<in> set lowercase"
    by (auto dest: set_zip_leftD set_zip_rightD)
  with Some show ?thesis by (simp add: lower_char_def)
qed

lemma lowercase_not_upper: "d \<in> set lowercase \<Longrightarrow> d \<notin> set uppercase"
  by (auto simp: uppercase_def lowercase_def)

lemma letters_not_space:
  "d \<in> set lowercase \<Longrightarrow> \<not> isspace d" "d \<in> set uppercase \<Longrightarrow> \<not> isspace d"
  by (auto simp: uppercase_def lowercase_def isspace_def whitespace_def)

lemma lower_char_idem: "lower_char (lower_char c) = lower_char c"
  using lower_char_cases[of c] lower_char_cases[of "lower_char c"] lowercase_not_upper
  by auto

lemma isspace_lower_char: "isspace (lower_char c) = isspace c"
  using lower_char_cases[of c] letters_not_space by auto

lemma lower_idem: "lower (lower s) = lower s"
  by (simp add: lower_def lower_char_idem)

lemma dropWhile_isspace_lower:
  "dropWhile isspace (map lower_char s) = map lower_char (dropWhile isspace s)"
  by (induction s) (simp_all add: isspace_lower_char)

lemma strip_lower: "strip (lower s) = lower (strip s)"
  by (simp add: strip_def lower_def dropWhile_isspace_lower rev_map)

section \<open>The matcher decides the pattern's language\<close>

inductive_simps in_lang_Fail: "in_lang Fail w"
inductive_simps in_lang_Eps: "in_lang Eps w"
inductive_simps in_lang_Cls: "in_lang (Cls p) w"
inductive_simps in_lang_Seq: "in_lang (Seq r s) w"
inductive_simps in_lang_Alt: "in_lang (Alt r s) w"
inductive_simps in_lang_Plus1: "in_lang (Plus1 r) w"
lemmas in_lang_simps = in_lang_Fail in_lang_Eps in_lang_Cls in_lang_Seq in_lang_Alt in_lang_Plus1

lemma star_class_all: "in_lang r w \<Longrightarrow> r = Star (Cls p) \<Longrightarrow> list_all p w"
  by (induction r w rule: in_lang.induct) (auto simp: in_lang_Cls)

lemma all_star_class: "list_all p w \<Longrightarrow> in_lang (Star (Cls p)) w"
proof (induction w)
  case Nil
  show ?case by (rule in_lang.Star0)
next
  case (Cons c w)
  then have "in_lang (Cls p) [c]" "in_lang (Star (Cls p)) w" by (simp_all add: in_lang.Cls)
  from in_lang.StarS[OF this] show ?case by simp
qed

lemma plus_class_iff: "in_lang (Plus1 (Cls p)) w \<longleftrightarrow> w \<noteq> [] \<and> list_all p w"
proof
  assume "in_lang (Plus1 (Cls p)) w"
  then obtain c v where "w = c # v" "p c" "in_lang (Star (Cls p)) v"
    by (auto simp: in_lang_Plus1 in_lang_Cls)
  then show "w \<noteq> [] \<and> list_all p w" using star_class_all[of "Star (Cls p)" v p] by simp
next
  assume a: "w \<noteq> [] \<and> list_all p w"
  then obtain c v where w: "w = c # v" by (cases w) auto
  with a have "in_lang (Cls p) [c]" "in_lang (Star (Cls p)) v"
    by (simp_all add: in_lang.Cls all_star_class)
  from in_lang.Plus1[OF this] w show "in_lang (Plus1 (Cls p)) w" by simp
qed

lemma email_pattern_lang: "in_lang EMAIL_PATTERN s \<longleftrightarrow> email_shape s"
proof
  assume "in_lang EMAIL_PATTERN s"
  then obtain a b c where
    "s = a @ [CHR ''@''] @ b @ [CHR ''.''] @ c"
    "a \<noteq> [] \<and> list_all not_space_not_at a"
    "b \<noteq> [] \<and> list_all not_space_not_at b"
    "c \<noteq> [] \<and> list_all not_space_not_at c"
    unfolding EMAIL_PATTERN_def in_lang_Seq[of "Plus1 _"] in_lang_Seq[of "Cls _"] plus_class_iff in_lang_Cls
    by auto
  then have "s = a @ ''@'' @ b @ ''.'' @ c \<and> a \<noteq> [] \<and> b \<noteq> [] \<and> c \<noteq> [] \<and>
      list_all (\<lambda>x. \<not> isspace x \<and> x \<noteq> CHR ''@'') (a @ b @ c)"
    by (auto simp: list_all_iff not_space_not_at_def)
  then show "email_shape s" unfolding email_shape_def by blast
next
  assume "email_shape s"
  then obtain a b c where s: "s = a @ ''@'' @ b @ ''.'' @ c" and ne: "a \<noteq> []" "b \<noteq> []" "c \<noteq> []"
    and al: "list_all (\<lambda>x. \<not> isspace x \<and> x \<noteq> CHR ''@'') (a @ b @ c)"
    unfolding email_shape_def by blast
  from al have cls: "list_all not_space_not_at a" "list_all not_space_not_at b" "list_all not_space_not_at c"
    by (simp_all add: list_all_iff not_space_not_at_def)
  let ?P = "Plus1 (Cls not_space_not_at)"
  have pa: "in_lang ?P a" and pb: "in_lang ?P b" and pc: "in_lang ?P c"
    using ne cls by (simp_all add: plus_class_iff)
  have dot: "in_lang (Cls (\<lambda>c. c = CHR ''.'')) ''.''" and at: "in_lang (Cls (\<lambda>c. c = CHR ''@'')) ''@''"
    by (simp_all add: in_lang.Cls)
  from in_lang.Seq[OF pa in_lang.Seq[OF at in_lang.Seq[OF pb in_lang.Seq[OF dot pc]]]]
  show "in_lang EMAIL_PATTERN s" by (simp add: EMAIL_PATTERN_def s)
qed

lemma nullable_iff: "nullable r \<longleftrightarrow> in_lang r []"
proof (induction r)
  case (Seq r s)
  show ?case
  proof
    assume "nullable (Seq r s)"
    with Seq have "in_lang r []" "in_lang s []" by simp_all
    from in_lang.Seq[OF this] show "in_lang (Seq r s) []" by simp
  next
    assume "in_lang (Seq r s) []"
    then show "nullable (Seq r s)" using Seq by (auto simp: in_lang_Seq)
  qed
next
  case (Plus1 r)
  show ?case
  proof
    assume "nullable (Plus1 r)"
    with Plus1 have "in_lang r []" by simp
    from in_lang.Plus1[OF this Star0] show "in_lang (Plus1 r) []" by simp
  next
    assume "in_lang (Plus1 r) []"
    then show "nullable (Plus1 r)" using Plus1 by (auto simp: in_lang_Plus1)
  qed
qed (auto simp: in_lang_simps intro: in_lang.intros)

lemma star_cons:
  "in_lang r' w \<Longrightarrow> r' = Star r \<Longrightarrow> w = c # v \<Longrightarrow>
     \<exists>u t. v = u @ t \<and> in_lang r (c # u) \<and> in_lang (Star r) t"
proof (induction r' w arbitrary: v rule: in_lang.induct)
  case (StarS r0 u v0)
  show ?case
  proof (cases u)
    case Nil
    with StarS show ?thesis by simp
  next
    case (Cons a u')
    with StarS show ?thesis by auto
  qed
qed simp_all

lemma deriv_iff: "in_lang (deriv c r) w \<longleftrightarrow> in_lang r (c # w)"
proof (induction r arbitrary: w)
  case (Seq r s)
  show ?case
  proof
    assume "in_lang (deriv c (Seq r s)) w"
    then consider (left) u v where "w = u @ v" "in_lang (deriv c r) u" "in_lang s v"
      | (right) "nullable r" "in_lang (deriv c s) w"
      by (auto split: if_splits simp: in_lang_simps)
    then show "in_lang (Seq r s) (c # w)"
    proof cases
      case left
      then have "in_lang r (c # u)" using Seq by simp
      from in_lang.Seq[OF this left(3)] left(1) show ?thesis by simp
    next
      case right
      then have "in_lang r []" "in_lang s (c # w)" using Seq by (simp_all add: nullable_iff)
      from in_lang.Seq[OF this] show ?thesis by simp
    qed
  next
    assume "in_lang (Seq r s) (c # w)"
    then obtain u v where uv: "c # w = u @ v" "in_lang r u" "in_lang s v"
      by (auto simp: in_lang_Seq)
    show "in_lang (deriv c (Seq r s)) w"
    proof (cases u)
      case Nil
      with uv have "nullable r" "in_lang (deriv c s) w" using Seq by (simp_all add: nullable_iff)
      then show ?thesis by (simp add: in_lang.AltR)
    next
      case (Cons a u')
      with uv have "in_lang (deriv c r) u'" "w = u' @ v" using Seq by simp_all
      with uv(3) have "in_lang (Seq (deriv c r) s) w" by (auto intro: in_lang.Seq)
      then show ?thesis by (simp add: in_lang.AltL)
    qed
  qed
next
  case (Star r)
  show ?case
  proof
    assume "in_lang (deriv c (Star r)) w"
    then obtain u v where "w = u @ v" "in_lang (deriv c r) u" "in_lang (Star r) v"
      by (auto simp: in_lang_Seq)
    then show "in_lang (Star r) (c # w)" using Star in_lang.StarS[of r "c # u" v] by simp
  next
    assume "in_lang (Star r) (c # w)"
    from star_cons[OF this refl refl] obtain u t where
      "w = u @ t" "in_lang r (c # u)" "in_lang (Star r) t" by blast
    then show "in_lang (deriv c (Star r)) w" using Star by (auto intro: in_lang.Seq)
  qed
next
  case (Plus1 r)
  show ?case
  proof
    assume "in_lang (deriv c (Plus1 r)) w"
    then obtain u v where "w = u @ v" "in_lang (deriv c r) u" "in_lang (Star r) v"
      by (auto simp: in_lang_Seq)
    then show "in_lang (Plus1 r) (c # w)" using Plus1 in_lang.Plus1[of r "c # u" v] by simp
  next
    assume "in_lang (Plus1 r) (c # w)"
    then obtain u v where uv: "c # w = u @ v" "in_lang r u" "in_lang (Star r) v"
      by (auto simp: in_lang_Plus1)
    show "in_lang (deriv c (Plus1 r)) w"
    proof (cases u)
      case Nil
      with uv have "in_lang (Star r) (c # w)" by simp
      from star_cons[OF this refl refl] obtain u' t where
        "w = u' @ t" "in_lang r (c # u')" "in_lang (Star r) t" by blast
      then show ?thesis using Plus1 by (auto intro: in_lang.Seq)
    next
      case (Cons a u')
      with uv have "in_lang (deriv c r) u'" "w = u' @ v" using Plus1 by simp_all
      with uv(3) show ?thesis by (auto intro: in_lang.Seq)
    qed
  qed
qed (auto simp: in_lang_simps intro: in_lang.intros)

lemma rx_match_iff: "rx_match r w \<longleftrightarrow> in_lang r w"
  by (induction w arbitrary: r) (simp_all add: nullable_iff deriv_iff)

lemma newline_isspace: "isspace newline"
  by (simp add: isspace_def whitespace_def newline_def)

lemma candidate_last: "lower (strip s) \<noteq> [] \<Longrightarrow> \<not> isspace (last (lower (strip s)))"
  using strip_last[of "lower s"] by (simp add: strip_lower)

lemma candidate_match:
  "match_anchored EMAIL_PATTERN (lower (strip s)) \<longleftrightarrow> email_shape (lower (strip s))"
  using candidate_last[of s] newline_isspace
  by (auto simp: match_anchored_def rx_match_iff email_pattern_lang)

lemma py_str_JStr: "py_str (JStr s) = s"
  by (simp add: py_str_def)

lemma sanitize_email_eq:
  "sanitize_email v =
     (if v \<noteq> JNull \<and> email_shape (lower (strip (py_str v)))
      then Some (lower (strip (py_str v))) else None)"
  by (simp add: sanitize_email_def candidate_match Let_def)

lemma strip_idem: "strip (strip s) = strip s"
  using strip_hd[of s] strip_last[of s] by (intro strip_fixed) blast

lemma normalize_idem: "lower (strip (lower (strip s))) = lower (strip s)"
  by (simp add: strip_lower strip_idem lower_idem)

lemma sanitize_email_fixed: "sanitize_email v = Some y \<Longrightarrow> sanitize_email (JStr y) = Some y"
proof -
  assume a: "sanitize_email v = Some y"
  then have y: "y = lower (strip (py_str v))" and sh: "email_shape y"
    by (auto simp: sanitize_email_eq split: if_splits)
  have "lower (strip y) = y" by (simp add: y normalize_idem)
  with sh show ?thesis by (simp add: sanitize_email_eq py_str_JStr)
qed

section \<open>Facts about the handler\<close>

lemma sanitize_name_nonempty: "sanitize_name v = Some nm \<Longrightarrow> nm \<noteq> []"
  by (auto simp: sanitize_name_def Let_def split: if_splits)

lemma email_shape_nonempty: "email_shape s \<Longrightarrow> s \<noteq> []"
  by (auto simp: email_shape_def)

lemma sanitize_email_nonempty: "sanitize_email v = Some em \<Longrightarrow> em \<noteq> []"
  by (auto simp: sanitize_email_eq email_shape_nonempty split: if_splits)

lemma isdigit_nonempty: "isdigit s \<Longrightarrow> s \<noteq> []"
  by (simp add: isdigit_def)

lemma do_POST_valid:
  assumes "passes_validation req nm em"
  shows "do_POST ev req d = store_signup ev req nm em d"
proof -
  from assms obtain len n payload where
    p: "rstrip ''/'' (path req) = ''/api/waitlist''" and
    c: "content_length req = Some len" "isdigit len" "py_int len = Some n" and
    r: "rfile req (nat n) = Inr (JDict payload)" and
    s: "sanitize_name (dict_get payload ''name'') = Some nm"
       "sanitize_email (dict_get payload ''email'') = Some em"
    unfolding passes_validation_def by blast
  from s have "nm \<noteq> []" "em \<noteq> []"
    by (auto dest: sanitize_name_nonempty sanitize_email_nonempty)
  with p c r s isdigit_nonempty[OF c(2)] show ?thesis
    by (simp add: do_POST_def)
qed

lemma contains_prefix: "prefix sub s \<Longrightarrow> contains sub s"
  by (cases s) simp_all

lemma lower_append: "lower (a @ b) = lower a @ lower b"
  by (simp add: lower_def)

lemma lower_UNIQUE: "lower ''UNIQUE'' = ''unique''"
  by (simp add: lower_def lower_char_def uppercase_def lowercase_def)

lemma lower_duplicate: "lower ''duplicate'' = ''duplicate''"
  by (simp add: lower_def lower_char_def uppercase_def lowercase_def)

lemma violation_sniffed:
  "contains ''unique'' (lower (unique_violation vr em)) \<or>
   contains ''duplicate'' (lower (unique_violation vr em))"
proof (cases vr)
  case Pooled
  have "unique_violation Pooled em = ''duplicate'' @ drop 9 (unique_violation Pooled em)"
    by simp
  then have "lower (unique_violation Pooled em) = ''duplicate'' @ lower (drop 9 (unique_violation Pooled em))"
    by (metis lower_append lower_duplicate)
  then have "prefix ''duplicate'' (lower (unique_violation Pooled em))"
    by (simp only: prefixI)
  with Pooled show ?thesis by (simp only: contains_prefix simp_thms)
next
  case Embedded
  have "unique_violation Embedded em = ''UNIQUE'' @ drop 6 (unique_violation Embedded em)"
    by simp
  then have "lower (unique_violation Embedded em) = ''unique'' @ lower (drop 6 (unique_violation Embedded em))"
    by (metis lower_append lower_UNIQUE)
  then have "prefix ''unique'' (lower (unique_violation Embedded em))"
    by (simp only: prefixI)
  with Embedded show ?thesis by (simp only: contains_prefix simp_thms)
qed

lemma store_signup_duplicate:
  assumes "healthy ev" "em \<in> set (map email (table d))"
  shows "store_signup ev req nm em d = (Sent (already_listed req (int (length (table d)))), d)"
  using assms violation_sniffed[of "variant d" em]
  by (auto simp: store_signup_def healthy_def insert_waitlist_record_def waitlist_count_def)

lemma store_signup_fresh:
  assumes "healthy ev" "em \<notin> set (map email (table d))"
  shows "store_signup ev req nm em d =
     (Sent (joined req em (int (length (table d)) + 1)),
      d\<lparr>table := table d @ [\<lparr>name = nm, email = em, created_at = now ev\<rparr>]\<rparr>)"
  using assms
  by (simp add: store_signup_def healthy_def insert_waitlist_record_def waitlist_count_def
      add.commute)

lemma store_signup_then_duplicate:
  assumes "healthy ev" "healthy ev'" "em \<notin> set (map email (table d))"
  shows "\<exists>d'. store_signup ev req nm em d = (Sent (joined req em (int (length (table d)) + 1)), d') \<and>
              store_signup ev' req' nm' em d' =
                (Sent (already_listed req' (int (length (table d)) + 1)), d')"
proof -
  let ?d' = "d\<lparr>table := table d @ [\<lparr>name = nm, email = em, created_at = now ev\<rparr>]\<rparr>"
  have "em \<in> set (map email (table ?d'))" by simp
  from store_signup_duplicate[OF assms(2) this, of req' nm']
  have "store_signup ev' req' nm' em ?d' = (Sent (already_listed req' (int (length (table d)) + 1)), ?d')"
    by (simp add: add.commute)
  with store_signup_fresh[OF assms(1,3), of req nm] show ?thesis by blast
qed

text \<open>Rewrite rules that evaluate the model on concrete inputs.\<close>

lemmas eval_strings = strip_def lower_def lower_char_def uppercase_def lowercase_def isspace_def
  whitespace_def newline_def dquote_def squote_def

lemmas eval_sanitize = sanitize_name_def sanitize_email_def py_str_def match_anchored_def
  EMAIL_PATTERN_def not_space_not_at_def dict_get_def eval_strings

lemmas eval_int = py_int_def int_blank_def digit_value_def decimal_digits_def isdigit_def
  int_max_str_digits_def
  superscript_digits_def

lemma signup_request_passes:
  assumes "sanitize_name n = Some nm" "sanitize_email e = Some em"
  shows "passes_validation (signup_request n e) nm em"
proof -
  have "isdigit ''42''" "py_int ''42'' = Some 42"
    by (simp_all add: eval_int)
  with assms show ?thesis
    by (simp add: passes_validation_def signup_request_def rstrip_def dict_get_def)
qed

lemma sanitize_examples:
  "sanitize_name (JStr ''Ada'') = Some ''Ada''"
  "sanitize_name (JStr ''Al'') = Some ''Al''"
  "sanitize_email (JStr ''  Foo@BAR.com '') = Some ''foo@bar.com''"
  "sanitize_email (JStr ''foo@bar.com'') = Some ''foo@bar.com''"
  by (simp_all add: eval_sanitize)

lemma healthy_quiet: "healthy (quiet clock)"
  by (simp add: healthy_def quiet_def)

section \<open>Facts about the listing\<close>

lemma order_newest_first: "newest_first (order_by_created_at_desc es)"
proof -
  have "sorted (map created_at (sort_key created_at (rev es)))" by (rule sorted_sort_key)
  then have "sorted_wrt (\<lambda>a b. created_at a \<le> created_at b) (sort_key created_at (rev es))"
    by (simp add: sorted_map)
  then show ?thesis
    by (simp add: newest_first_def order_by_created_at_desc_def sorted_wrt_rev)
qed

lemma order_mset: "mset (order_by_created_at_desc es) = mset es"
  by (simp add: order_by_created_at_desc_def)

lemma order_length: "length (order_by_created_at_desc es) = length es"
  by (simp add: order_by_created_at_desc_def)

lemma newest_first_take: "newest_first es \<Longrightarrow> newest_first (take n es)"
  by (simp add: newest_first_def sorted_wrt_take)

lemma limit_of_ignored:
  assumes "query req ''limit'' = Some v"
    and "py_int v = None \<or> (\<exists>n. py_int v = Some n \<and> n \<le> 0)"
  shows "limit_of req = None"
  using assms by (auto simp: limit_of_def)

lemma limit_of_absent: "limit_of (req\<lparr>query := (query req)(''limit'' := None)\<rparr>) = None"
  by (simp add: limit_of_def)

lemma responses_ignore_query:
  "json_response (req\<lparr>query := q\<rparr>) b st = json_response req b st"
  "send_csv (req\<lparr>query := q\<rparr>) es = send_csv req es"
  "not_found (req\<lparr>query := q\<rparr>) = not_found req"
  by (simp_all add: json_response_def set_headers_def send_csv_def cors_headers_def
      allowed_origin_def not_found_def)

lemma do_GET_limit:
  assumes "limit_of req = None"
  shows "do_GET ev req d = do_GET ev (req\<lparr>query := (query req)(''limit'' := None)\<rparr>) d"
  using assms limit_of_absent[of req]
  by (simp add: do_GET_def responses_ignore_query Let_def cong: sum.case_cong if_cong)

lemma do_GET_entries_all:
  assumes "healthy ev" "rstrip ''/'' (url_path req) = ''/api/waitlist/entries''"
    "limit_of req = None"
  shows "do_GET ev req d =
     Sent (if lower (case query req ''format'' of None \<Rightarrow> ''json'' | Some f \<Rightarrow> f) = ''csv''
           then send_csv req (order_by_created_at_desc (table d))
           else json_response req
                  (JDict [(''entries'', JList (map entry_json (order_by_created_at_desc (table d)))),
                          (''count'', JInt (int (length (table d)))),
                          (''limit'', JNull)]) 200)"
  using assms
  by (simp add: do_GET_def healthy_def waitlist_entries_def waitlist_count_def)

text \<open>For a limit that fits 64 bits the listing is as the specification has it: newest
  first, all rows when the limit is absent or not positive, the first \<open>limit\<close> rows
  otherwise; and a \<^verbatim>\<open>limit\<close> parameter that is not a positive integer is ignored.\<close>

lemma entries_newest_first_in_range:
  assumes "\<forall>n. limit = Some n \<longrightarrow> n < sql_integer_bound"
  shows "\<exists>es full.
      waitlist_entries None limit d = Inr es \<and> waitlist_entries None None d = Inr full \<and>
      newest_first es \<and> mset full = mset (table d) \<and>
      (case limit of
         None \<Rightarrow> es = full
       | Some n \<Rightarrow>
           if n \<le> 0 then es = full
           else es = take (nat n) full \<and> length es = min (nat n) (length (table d)))"
proof -
  let ?full = "order_by_created_at_desc (table d)"
  let ?es = "case limit of None \<Rightarrow> ?full | Some n \<Rightarrow> if 0 < n then take (nat n) ?full else ?full"
  have a: "waitlist_entries None limit d = Inr ?es" "waitlist_entries None None d = Inr ?full"
    using assms by (auto simp: waitlist_entries_def split: option.split)
  have b: "newest_first ?es"
    by (simp add: order_newest_first newest_first_take split: option.split)
  have c: "mset ?full = mset (table d)" by (rule order_mset)
  have e: "case limit of
         None \<Rightarrow> ?es = ?full
       | Some n \<Rightarrow>
           if n \<le> 0 then ?es = ?full
           else ?es = take (nat n) ?full \<and> length ?es = min (nat n) (length (table d))"
    by (simp add: order_length min.commute split: option.split)
  from a b c e show ?thesis by blast
qed

lemma limit_parameter_ignored:
  assumes "query req ''limit'' = Some v"
    and "py_int v = None \<or> (\<exists>n. py_int v = Some n \<and> n \<le> 0)"
  shows "do_GET ev req d = do_GET ev (req\<lparr>query := (query req)(''limit'' := None)\<rparr>) d"
    and "healthy ev \<Longrightarrow> rstrip ''/'' (url_path req) = ''/api/waitlist/entries'' \<Longrightarrow>
         lower (case query req ''format'' of None \<Rightarrow> ''json'' | Some f \<Rightarrow> f) \<noteq> ''csv'' \<Longrightarrow>
         \<exists>r. do_GET ev req d = Sent r \<and> status r = 200 \<and>
             body r =
               JsonBody (JDict [(''entries'',
                                 JList (map entry_json (order_by_created_at_desc (table d)))),
                                (''count'', JInt (int (length (table d)))),
                                (''limit'', JNull)])"
proof -
  have l: "limit_of req = None" using assms by (rule limit_of_ignored)
  show "do_GET ev req d = do_GET ev (req\<lparr>query := (query req)(''limit'' := None)\<rparr>) d"
    using l by (rule do_GET_limit)
  show "\<exists>r. do_GET ev req d = Sent r \<and> status r = 200 \<and>
             body r =
               JsonBody (JDict [(''entries'',
                                 JList (map entry_json (order_by_created_at_desc (table d)))),
                                (''count'', JInt (int (length (table d)))),
                                (''limit'', JNull)])"
    if "healthy ev" "rstrip ''/'' (url_path req) = ''/api/waitlist/entries''"
      "lower (case query req ''format'' of None \<Rightarrow> ''json'' | Some f \<Rightarrow> f) \<noteq> ''csv''"
    using do_GET_entries_all[OF that(1,2) l, of d] that(3)
    by (simp add: json_response_def set_headers_def)
qed

section \<open>Facts about the CSV export\<close>

lemma replace_dquote:
  "replace [dquote] [dquote, dquote] f =
     concat (map (\<lambda>c. if c = dquote then [dquote, dquote] else [c]) f)"
  by (induction f) (simp_all add: replace_def)

lemma contains_single: "contains [x] s \<longleftrightarrow> x \<in> set s"
  by (induction s) auto

lemma set_doubled:
  "set (concat (map (\<lambda>c. if c = dquote then [dquote, dquote] else [c]) f)) = set f"
  by (induction f) auto

lemma doubled_id:
  "dquote \<notin> set f \<Longrightarrow> concat (map (\<lambda>c. if c = dquote then [dquote, dquote] else [c]) f) = f"
  by (induction f) auto

lemma csv_value_quoted: "csv_value (replace [dquote] [dquote, dquote] f) = quoted f"
proof -
  have "'','' = [CHR '','']" by simp
  then show ?thesis
    unfolding csv_value_def quoted_def replace_dquote Let_def
    by (simp add: contains_single set_doubled doubled_id del: set_concat)
qed

lemma csv_line_row: "csv_line e = csv_row e"
  by (simp add: csv_line_def csv_row_def csv_value_quoted)

lemma join_cons: "join sep (x # xs) = x @ concat (map (\<lambda>y. sep @ y) xs)"
  by (induction xs arbitrary: x) simp_all

lemma csv_data_rows:
  "csv_data entries = ''name,email,created_at'' @ concat (map (\<lambda>e. newline # csv_row e) entries)"
  by (simp add: csv_data_def join_cons csv_line_row comp_def)

lemma lines_of_plain: "newline \<notin> set a \<Longrightarrow> lines_of a = [a]"
  by (induction a) auto

lemma lines_of_break: "newline \<notin> set a \<Longrightarrow> lines_of (a @ newline # b) = a # lines_of b"
  by (induction a) auto

lemma hd_lines_of: "newline \<notin> set a \<Longrightarrow> hd (lines_of (a @ concat (map (\<lambda>x. newline # f x) xs))) = a"
  by (cases xs) (simp_all add: lines_of_plain lines_of_break)

lemma lines_of_rows:
  assumes "newline \<notin> set a" "\<forall>x\<in>set xs. newline \<notin> set (f x)"
  shows "lines_of (a @ concat (map (\<lambda>x. newline # f x) xs)) = a # map f xs"
  using assms
proof (induction xs arbitrary: a)
  case Nil
  then show ?case by (simp add: lines_of_plain)
next
  case (Cons x xs)
  from Cons.prems have "lines_of (f x @ concat (map (\<lambda>x. newline # f x) xs)) = f x # map f xs"
    by (intro Cons.IH) simp_all
  with Cons.prems show ?case by (simp add: lines_of_break)
qed

lemma newline_quoted: "newline \<notin> set f \<Longrightarrow> newline \<notin> set (quoted f)"
proof -
  assume a: "newline \<notin> set f"
  have "newline \<noteq> dquote" by (simp add: newline_def dquote_def)
  with a show ?thesis
    by (simp add: quoted_def Let_def set_doubled del: set_concat)
qed

lemma newline_row:
  "newline \<notin> set (name e @ email e @ created_at e) \<Longrightarrow> newline \<notin> set (csv_row e)"
  by (simp add: csv_row_def newline_quoted) (simp add: newline_def)

lemma header_plain: "newline \<notin> set ''name,email,created_at''"
  by (simp add: newline_def)

section \<open>Facts about the responses\<close>








section \<open>The order of the checks in a POST\<close>

text \<open>On a body that is a JSON object the checks of \<^verbatim>\<open>do_POST\<close> fail in the order of the
  specification: the length header, the JSON syntax, the name, the email.\<close>

lemma post_checks_in_order:
  assumes "rstrip ''/'' (path req) = ''/api/waitlist''"
  shows "content_length req = None \<or> (\<exists>l. content_length req = Some l \<and> \<not> isdigit l) \<Longrightarrow>
           do_POST ev req d =
             (Sent (json_response req (JDict [(''error'', JStr ''Missing Content-Length'')]) 411), d)"
    and "content_length req = Some l \<Longrightarrow> isdigit l \<Longrightarrow> py_int l = Some n \<Longrightarrow>
           rfile req (nat n) = Inl JSONDecodeError \<Longrightarrow>
           do_POST ev req d =
             (Sent (json_response req (JDict [(''error'', JStr ''Invalid JSON payload'')]) 400), d)"
    and "content_length req = Some l \<Longrightarrow> isdigit l \<Longrightarrow> py_int l = Some n \<Longrightarrow>
           rfile req (nat n) = Inr (JDict payload) \<Longrightarrow>
           sanitize_name (dict_get payload ''name'') = None \<Longrightarrow>
           do_POST ev req d = (Sent (name_required req), d)"
    and "content_length req = Some l \<Longrightarrow> isdigit l \<Longrightarrow> py_int l = Some n \<Longrightarrow>
           rfile req (nat n) = Inr (JDict payload) \<Longrightarrow>
           sanitize_name (dict_get payload ''name'') = Some nm \<Longrightarrow>
           sanitize_email (dict_get payload ''email'') = None \<Longrightarrow>
           do_POST ev req d = (Sent (email_required req), d)"
  using assms
  by (auto simp: do_POST_def isdigit_def Let_def dest: sanitize_name_nonempty)

lemma insert_failure_caught:
  "do_POST (failing ''connection lost'') (signup_request (JStr ''Ada'') (JStr ''foo@bar.com'')) d =
     (Sent (json_response (signup_request (JStr ''Ada'') (JStr ''foo@bar.com''))
        (JDict [(''error'', JStr ''We hit a snag saving your request.'')]) 500), d)"
proof -
  have l: "lower ''connection lost'' = ''connection lost''"
    by (simp add: lower_def lower_char_def uppercase_def lowercase_def)
  show ?thesis
    by (simp add: do_POST_valid[OF signup_request_passes[OF sanitize_examples(1,4)]]
        store_signup_def failing_def insert_waitlist_record_def l)
qed

section \<open>What the named responses hold\<close>

lemma already_listed_fields:
  "status (already_listed req n) = 409"
  "body (already_listed req n) =
     JsonBody (JDict [(''message'', JStr ''This email is already on the waitlist.''),
                      (''count'', JInt n)])"
  by (simp_all add: already_listed_def json_response_def set_headers_def)

lemma joined_fields:
  "status (joined req em n) = 201"
  "body (joined req em n) =
     JsonBody (JDict [(''message'',
                       JStr (''You'' @ [squote] @ ''re on the waitlist! We'' @ [squote] @
                             ''ll reach out as invites roll out.'')),
                      (''email'', JStr em),
                      (''count'', JInt n)])"
  by (simp_all add: joined_def json_response_def set_headers_def)

lemma acao_unsupported_method:
  "status (unsupported_method command) = 501"
  "map_of (headers (unsupported_method command)) ''Access-Control-Allow-Origin'' = None"
  by (simp_all add: unsupported_method_def)



lemma handle_other:
  assumes "command \<notin> {''GET'', ''POST'', ''OPTIONS''}"
  shows "handle ev command req d = (Sent (unsupported_method command), d)"
  using assms by (simp add: handle_def)

section \<open>The claims\<close>

text \<open>
  C1, as amended. For every state of the store and every POST to \<^verbatim>\<open>/api/waitlist\<close> that
  gets past the handler's earlier checks (a \<^verbatim>\<open>Content-Length\<close> header that \<^verbatim>\<open>int\<close>
  reads, a body that is a JSON object, a name and an email that pass sanitization) with a
  normalized email that already exists in the store, on a backend that raises nothing
  but the uniqueness violation, the handler responds 409 with the body
  \<^verbatim>\<open>{"message": "This email is already on the waitlist.", "count": n}\<close>, \<open>n\<close> the
  current count, and the stored entries and the count are unchanged. When the email is
  not yet in the store the request is answered 201 and one row is added, and a later
  such request with the same normalized email is answered 409 with the count the 201
  reported, the store unchanged by it.
\<close>

theorem duplicate_email_conflict:
  assumes "healthy ev" and "healthy ev'"
    and "passes_validation req nm em" and "passes_validation req' nm' em"
  shows "(em \<in> set (map email (table d)) \<longrightarrow>
            (\<exists>r. do_POST ev req d = (Sent r, d) \<and> status r = 409 \<and>
                 body r =
                   JsonBody (JDict [(''message'', JStr ''This email is already on the waitlist.''),
                                    (''count'', JInt (int (length (table d))))]))) \<and>
         (em \<notin> set (map email (table d)) \<longrightarrow>
            (\<exists>r1 r2 d'.
                do_POST ev req d = (Sent r1, d') \<and> status r1 = 201 \<and>
                body r1 =
                  JsonBody (JDict [(''message'',
                                    JStr (''You'' @ [squote] @ ''re on the waitlist! We'' @
                                          [squote] @ ''ll reach out as invites roll out.'')),
                                   (''email'', JStr em),
                                   (''count'', JInt (int (length (table d'))))]) \<and>
                table d' = table d @ [\<lparr>name = nm, email = em, created_at = now ev\<rparr>] \<and>
                do_POST ev' req' d' = (Sent r2, d') \<and> status r2 = 409 \<and>
                body r2 =
                  JsonBody (JDict [(''message'', JStr ''This email is already on the waitlist.''),
                                   (''count'', JInt (int (length (table d'))))])))"
proof (intro conjI impI)
  assume "em \<in> set (map email (table d))"
  from store_signup_duplicate[OF assms(1) this, of req nm]
  have "do_POST ev req d = (Sent (already_listed req (int (length (table d)))), d)"
    by (simp add: do_POST_valid[OF assms(3)])
  then show "\<exists>r. do_POST ev req d = (Sent r, d) \<and> status r = 409 \<and>
      body r =
        JsonBody (JDict [(''message'', JStr ''This email is already on the waitlist.''),
                         (''count'', JInt (int (length (table d))))])"
    by (simp add: already_listed_fields)
next
  assume fresh: "em \<notin> set (map email (table d))"
  let ?d' = "d\<lparr>table := table d @ [\<lparr>name = nm, email = em, created_at = now ev\<rparr>]\<rparr>"
  have one: "do_POST ev req d = (Sent (joined req em (int (length (table d)) + 1)), ?d')"
    using store_signup_fresh[OF assms(1) fresh, of req nm]
    by (simp add: do_POST_valid[OF assms(3)])
  have "em \<in> set (map email (table ?d'))" by simp
  from store_signup_duplicate[OF assms(2) this, of req' nm']
  have two: "do_POST ev' req' ?d' = (Sent (already_listed req' (int (length (table ?d')))), ?d')"
    by (simp add: do_POST_valid[OF assms(4)])
  have len: "int (length (table ?d')) = int (length (table d)) + 1" by simp
  show "\<exists>r1 r2 d'.
      do_POST ev req d = (Sent r1, d') \<and> status r1 = 201 \<and>
      body r1 =
        JsonBody (JDict [(''message'',
                          JStr (''You'' @ [squote] @ ''re on the waitlist! We'' @
                                [squote] @ ''ll reach out as invites roll out.'')),
                         (''email'', JStr em),
                         (''count'', JInt (int (length (table d'))))]) \<and>
      table d' = table d @ [\<lparr>name = nm, email = em, created_at = now ev\<rparr>] \<and>
      do_POST ev' req' d' = (Sent r2, d') \<and> status r2 = 409 \<and>
      body r2 =
        JsonBody (JDict [(''message'', JStr ''This email is already on the waitlist.''),
                         (''count'', JInt (int (length (table d'))))])"
    apply (rule exI[where x = "joined req em (int (length (table d)) + 1)"])
    apply (rule exI[where x = "already_listed req' (int (length (table ?d')))"])
    apply (rule exI[where x = ?d'])
    using one two len by (simp only: joined_fields already_listed_fields) simp
qed

theorem duplicate_email_conflict_witness:
  "(\<exists>r. do_POST (quiet ''2024-05-01 10:00:07'') (signup_request (JStr ''Al'') (JStr ''foo@bar.com''))
          one_signup = (Sent r, one_signup) \<and>
        status r = 409 \<and>
        body r =
          JsonBody (JDict [(''message'', JStr ''This email is already on the waitlist.''),
                           (''count'', JInt 1)])) \<and>
   (\<exists>r1 r2 d'.
        do_POST (quiet ''2024-05-01 10:00:00'')
          (signup_request (JStr ''Ada'') (JStr ''  Foo@BAR.com '')) \<lparr>variant = Embedded, table = []\<rparr> =
          (Sent r1, d') \<and>
        status r1 = 201 \<and> d' = one_signup \<and>
        do_POST (quiet ''2024-05-01 10:00:07'') (signup_request (JStr ''Al'') (JStr ''foo@bar.com'')) d' =
          (Sent r2, d') \<and>
        status r2 = 409 \<and>
        body r2 =
          JsonBody (JDict [(''message'', JStr ''This email is already on the waitlist.''),
                           (''count'', JInt 1)]))"
proof -
  note p1 = signup_request_passes[OF sanitize_examples(1,3)]
  note p2 = signup_request_passes[OF sanitize_examples(2,4)]
  have listed: "''foo@bar.com'' \<in> set (map email (table one_signup))"
    by (simp add: one_signup_def)
  have fresh: "''foo@bar.com'' \<notin> set (map email (table \<lparr>variant = Embedded, table = []\<rparr>))"
    by simp
  from duplicate_email_conflict[OF healthy_quiet[of "''2024-05-01 10:00:07''"]
      healthy_quiet[of "''2024-05-01 10:00:07''"] p2 p2, of one_signup] listed
  have a: "\<exists>r. do_POST (quiet ''2024-05-01 10:00:07'')
          (signup_request (JStr ''Al'') (JStr ''foo@bar.com'')) one_signup = (Sent r, one_signup) \<and>
        status r = 409 \<and>
        body r =
          JsonBody (JDict [(''message'', JStr ''This email is already on the waitlist.''),
                           (''count'', JInt 1)])"
    by (simp add: one_signup_def)
  from duplicate_email_conflict[OF healthy_quiet[of "''2024-05-01 10:00:00''"]
      healthy_quiet[of "''2024-05-01 10:00:07''"] p1 p2, of "\<lparr>variant = Embedded, table = []\<rparr>"] fresh
  obtain r1 r2 d' where b:
    "do_POST (quiet ''2024-05-01 10:00:00'')
          (signup_request (JStr ''Ada'') (JStr ''  Foo@BAR.com '')) \<lparr>variant = Embedded, table = []\<rparr> =
          (Sent r1, d')"
    "status r1 = 201"
    "table d' = [\<lparr>name = ''Ada'', email = ''foo@bar.com'', created_at = now (quiet ''2024-05-01 10:00:00'')\<rparr>]"
    "do_POST (quiet ''2024-05-01 10:00:07'') (signup_request (JStr ''Al'') (JStr ''foo@bar.com'')) d' =
          (Sent r2, d')"
    "status r2 = 409"
    "body r2 =
          JsonBody (JDict [(''message'', JStr ''This email is already on the waitlist.''),
                           (''count'', JInt (int (length (table d'))))])"
    by auto
  have v: "variant d' = Embedded"
    using b(1) store_signup_fresh[OF healthy_quiet fresh, of "''2024-05-01 10:00:00''"
        "signup_request (JStr ''Ada'') (JStr ''  Foo@BAR.com '')" "''Ada''"]
    by (auto simp: do_POST_valid[OF p1])
  have "d' = one_signup"
    using b(3) v by (cases d') (simp add: one_signup_def quiet_def)
  with b show ?thesis using a by (auto simp: one_signup_def)
qed

text \<open>The claim as it was stated answers 409 to every POST whose normalized email is
  stored. With the email \<^verbatim>\<open>foo@bar.com\<close> stored, a POST of that email is answered 400
  when its name is \<^verbatim>\<open>"A"\<close> and 411 when it has no \<^verbatim>\<open>Content-Length\<close>, by the checks
  that come before the insert; and it gets no response at all when its
  \<^verbatim>\<open>Content-Length\<close> is the superscript two, or when the backend fails on the count
  that follows the refused insert.\<close>

theorem duplicate_email_other_answers_counterexample:
  "sanitize_email (JStr ''foo@bar.com'') = Some ''foo@bar.com'' \<and>
   ''foo@bar.com'' \<in> set (map email (table one_signup)) \<and>
   do_POST (quiet ''2024-05-03 08:00:00'') (signup_request (JStr ''A'') (JStr ''foo@bar.com''))
       one_signup =
     (Sent \<lparr>status = 400,
            headers = [(''Content-Type'', ''application/json''),
                       (''Access-Control-Allow-Origin'', ''*''),
                       (''Access-Control-Allow-Headers'', ''Content-Type''),
                       (''Access-Control-Allow-Methods'', ''POST, OPTIONS, GET'')],
            body = JsonBody (JDict [(''error'',
                     JStr ''Please share your name so we can personalize the rollout.'')])\<rparr>,
      one_signup) \<and>
   do_POST (quiet ''2024-05-03 08:00:00'')
       ((signup_request (JStr ''Al'') (JStr ''foo@bar.com''))\<lparr>content_length := None\<rparr>)
       one_signup =
     (Sent \<lparr>status = 411,
            headers = [(''Content-Type'', ''application/json''),
                       (''Access-Control-Allow-Origin'', ''*''),
                       (''Access-Control-Allow-Headers'', ''Content-Type''),
                       (''Access-Control-Allow-Methods'', ''POST, OPTIONS, GET'')],
            body = JsonBody (JDict [(''error'', JStr ''Missing Content-Length'')])\<rparr>,
      one_signup) \<and>
   do_POST (quiet ''2024-05-03 08:00:00'')
       ((signup_request (JStr ''Al'') (JStr ''foo@bar.com''))\<lparr>content_length := Some [CHR 0xB2]\<rparr>)
       one_signup =
     (Raised ValueError, one_signup) \<and>
   do_POST count_failing (signup_request (JStr ''Al'') (JStr ''foo@bar.com'')) one_signup =
     (Raised (DatabaseError (OperationalError ''connection lost'')), one_signup)"
proof -
  have e: "sanitize_email (JStr ''foo@bar.com'') = Some ''foo@bar.com''"
    by (rule sanitize_examples(4))
  have n: "sanitize_name (JStr ''A'') = None"
    by (simp add: sanitize_name_def py_str_def strip_def isspace_def whitespace_def)
  have i: "isdigit ''42''" "py_int ''42'' = Some 42" "isdigit [CHR 0xB2]" "py_int [CHR 0xB2] = None"
    by (simp_all add: eval_int)
  have p: "rstrip ''/'' ''/api/waitlist'' = ''/api/waitlist''"
    by (simp add: rstrip_def)
  have name: "do_POST (quiet ''2024-05-03 08:00:00'')
       (signup_request (JStr ''A'') (JStr ''foo@bar.com'')) one_signup =
     (Sent (name_required (signup_request (JStr ''A'') (JStr ''foo@bar.com''))), one_signup)"
    by (simp add: do_POST_def signup_request_def p i n dict_get_def)
  have len: "do_POST (quiet ''2024-05-03 08:00:00'')
       ((signup_request (JStr ''Al'') (JStr ''foo@bar.com''))\<lparr>content_length := None\<rparr>)
       one_signup =
     (Sent (json_response ((signup_request (JStr ''Al'') (JStr ''foo@bar.com''))\<lparr>content_length := None\<rparr>)
        (JDict [(''error'', JStr ''Missing Content-Length'')]) 411), one_signup)"
    by (simp add: do_POST_def signup_request_def p)
  have sup: "do_POST (quiet ''2024-05-03 08:00:00'')
       ((signup_request (JStr ''Al'') (JStr ''foo@bar.com''))\<lparr>content_length := Some [CHR 0xB2]\<rparr>)
       one_signup =
     (Raised ValueError, one_signup)"
    by (simp add: do_POST_def signup_request_def p i)
  have l: "lower ''UNIQUE constraint failed: waitlist.email'' =
      ''unique'' @ lower '' constraint failed: waitlist.email''"
    using lower_append[of "''UNIQUE''" "'' constraint failed: waitlist.email''"]
    by (simp add: lower_UNIQUE)
  have cnt: "do_POST count_failing (signup_request (JStr ''Al'') (JStr ''foo@bar.com'')) one_signup =
     (Raised (DatabaseError (OperationalError ''connection lost'')), one_signup)"
    by (simp add: do_POST_valid[OF signup_request_passes[OF sanitize_examples(2,4)]]
        store_signup_def count_failing_def insert_waitlist_record_def one_signup_def
        waitlist_count_def l)
  show ?thesis
    using e name len sup cnt
    by (simp add: one_signup_def name_required_def json_response_def set_headers_def
        cors_headers_def allowed_origin_def signup_request_def)
qed

text \<open>
  C2. The claim gives every POST to \<^verbatim>\<open>/api/waitlist\<close> one of the responses 411, 400
  (JSON), 400 (name), 400 (email) by the first failing check, and the name message to a
  valid JSON body in which name and email are both invalid. The code does so on a body
  that is a JSON object (\<open>post_checks_in_order\<close>). On valid JSON of another kind it sends
  nothing: for the body \<^verbatim>\<open>[]\<close>, \<^verbatim>\<open>payload.get\<close> raises \<^verbatim>\<open>AttributeError\<close>, which no
  clause of \<^verbatim>\<open>do_POST\<close> catches. Nor does it send 411 for every \<^verbatim>\<open>Content-Length\<close>
  that is not a number: the superscript two passes \<^verbatim>\<open>isdigit\<close> and \<^verbatim>\<open>int\<close> then raises
  \<^verbatim>\<open>ValueError\<close>.
\<close>

theorem list_body_unhandled:
  "do_POST (quiet ''2024-05-03 08:00:00'') list_body_request \<lparr>variant = Embedded, table = []\<rparr> =
     (Raised AttributeError, \<lparr>variant = Embedded, table = []\<rparr>) \<and>
   do_POST (quiet ''2024-05-03 08:00:00'') superscript_length_request
       \<lparr>variant = Embedded, table = []\<rparr> =
     (Raised ValueError, \<lparr>variant = Embedded, table = []\<rparr>)"
  by (simp add: do_POST_def list_body_request_def superscript_length_request_def rstrip_def
      eval_int)

text \<open>
  C3. For every input, \<^verbatim>\<open>sanitize_name\<close> returns the text of the input without its
  surrounding whitespace when what is left has at least two characters, and rejects the
  input otherwise; \<^verbatim>\<open>None\<close> is rejected. The text of a string is the string itself.
  The name \<^verbatim>\<open>"A"\<close> is rejected and \<^verbatim>\<open>"Al"\<close> is accepted.
\<close>

theorem sanitize_name_trims:
  "sanitize_name v =
     (if v \<noteq> JNull \<and> 2 \<le> length (strip (py_str v)) then Some (strip (py_str v)) else None) \<and>
   trimmed (py_str v) (strip (py_str v)) \<and>
   py_str (JStr s) = s \<and>
   sanitize_name JNull = None \<and>
   sanitize_name (JStr ''A'') = None \<and>
   sanitize_name (JStr ''Al'') = Some ''Al''"
proof -
  have "sanitize_name (JStr ''A'') = None" "sanitize_name (JStr ''Al'') = Some ''Al''"
    by (simp_all add: sanitize_name_def py_str_def strip_def isspace_def whitespace_def)
  then show ?thesis
    by (simp add: sanitize_name_def Let_def strip_trimmed py_str_JStr)
qed

theorem sanitize_name_trims_witness:
  "sanitize_name (JStr ''  Grace Hopper '') = Some ''Grace Hopper'' \<and>
   trimmed ''  Grace Hopper '' ''Grace Hopper'' \<and>
   sanitize_name (JStr '' A '') = None"
proof -
  have s: "strip ''  Grace Hopper '' = ''Grace Hopper''" "strip '' A '' = ''A''"
    by (simp_all add: strip_def isspace_def whitespace_def)
  from sanitize_name_trims[of "JStr ''  Grace Hopper ''"] sanitize_name_trims[of "JStr '' A ''"]
  show ?thesis by (simp add: s py_str_JStr)
qed

text \<open>
  C4. For every input, \<^verbatim>\<open>sanitize_email\<close> returns the text of the input, trimmed of
  surrounding whitespace and lower-cased, exactly when that normalized text has the
  shape: one or more characters that are neither whitespace nor \<^verbatim>\<open>@\<close>, then \<^verbatim>\<open>@\<close>,
  then one or more such characters, then a dot, then one or more such characters. Every
  other input, \<^verbatim>\<open>None\<close> included, is rejected.
\<close>

theorem sanitize_email_shape:
  "sanitize_email v =
     (if v \<noteq> JNull \<and> email_shape (lower (strip (py_str v)))
      then Some (lower (strip (py_str v))) else None) \<and>
   trimmed (py_str v) (strip (py_str v)) \<and>
   py_str (JStr s) = s \<and>
   sanitize_email JNull = None"
  by (simp add: sanitize_email_eq[symmetric] strip_trimmed py_str_JStr)
    (simp add: sanitize_email_def)

theorem sanitize_email_shape_witness:
  "email_shape ''foo@bar.com'' \<and> \<not> email_shape ''foo@bar'' \<and>
   sanitize_email (JStr ''  Foo@BAR.com '') = Some ''foo@bar.com'' \<and>
   sanitize_email (JStr ''foo@bar'') = None"
proof -
  have n: "lower (strip (py_str (JStr ''  Foo@BAR.com ''))) = ''foo@bar.com''"
    "lower (strip (py_str (JStr ''foo@bar''))) = ''foo@bar''"
    by (simp_all add: py_str_def eval_strings)
  have e: "sanitize_email (JStr ''  Foo@BAR.com '') = Some ''foo@bar.com''"
    "sanitize_email (JStr ''foo@bar'') = None"
    by (simp_all add: eval_sanitize)
  have a: "Some ''foo@bar.com'' =
      (if JStr ''  Foo@BAR.com '' \<noteq> JNull \<and> email_shape ''foo@bar.com''
       then Some ''foo@bar.com'' else None)"
    using sanitize_email_shape[of "JStr ''  Foo@BAR.com ''", THEN conjunct1]
    unfolding n e(1) .
  have b: "None =
      (if JStr ''foo@bar'' \<noteq> JNull \<and> email_shape ''foo@bar'' then Some ''foo@bar'' else None)"
    using sanitize_email_shape[of "JStr ''foo@bar''", THEN conjunct1]
    unfolding n e(2) .
  have "email_shape ''foo@bar.com''"
    using a by (cases "email_shape ''foo@bar.com''") simp_all
  moreover have "\<not> email_shape ''foo@bar''"
    using b by (cases "email_shape ''foo@bar''") simp_all
  ultimately show ?thesis using e by simp
qed

text \<open>
  C5. Email normalization is idempotent: when \<^verbatim>\<open>sanitize_email\<close> accepts an input with
  result \<open>y\<close>, it accepts \<open>y\<close> and returns \<open>y\<close>. Strings that differ only in surrounding
  whitespace and in letter case have the same result (\<^verbatim>\<open>"  Foo@BAR.com "\<close> and
  \<^verbatim>\<open>"foo@bar.com"\<close> both give \<^verbatim>\<open>"foo@bar.com"\<close>), and two sign-ups whose emails have
  the same result collide: the first is answered 201, the second 409.
\<close>

theorem email_normalization_idempotent:
  "(sanitize_email v = Some y \<longrightarrow> sanitize_email (JStr y) = Some y) \<and>
   (list_all isspace l \<and> list_all isspace r \<and> lower s = lower t \<longrightarrow>
      sanitize_email (JStr (l @ s @ r)) = sanitize_email (JStr t)) \<and>
   sanitize_email (JStr ''  Foo@BAR.com '') = Some ''foo@bar.com'' \<and>
   sanitize_email (JStr ''foo@bar.com'') = Some ''foo@bar.com'' \<and>
   (healthy ev \<and> healthy ev' \<and>
    sanitize_name n = Some nm \<and> sanitize_name n' = Some nm' \<and>
    sanitize_email a = Some em \<and> sanitize_email b = Some em \<and>
    em \<notin> set (map email (table d)) \<longrightarrow>
      (\<exists>d'. do_POST ev (signup_request n a) d =
              (Sent (joined (signup_request n a) em (int (length (table d)) + 1)), d') \<and>
            do_POST ev' (signup_request n' b) d' =
              (Sent (already_listed (signup_request n' b) (int (length (table d)) + 1)), d')))"
proof -
  have idem: "sanitize_email v = Some y \<longrightarrow> sanitize_email (JStr y) = Some y"
    by (simp add: sanitize_email_fixed)
  have pad: "list_all isspace l \<and> list_all isspace r \<and> lower s = lower t \<longrightarrow>
      sanitize_email (JStr (l @ s @ r)) = sanitize_email (JStr t)"
  proof
    assume h: "list_all isspace l \<and> list_all isspace r \<and> lower s = lower t"
    then have "strip (l @ s @ r) = strip s" by (simp add: strip_padding)
    then have "lower (strip (l @ s @ r)) = lower (strip s)" by simp
    also have "\<dots> = strip (lower s)" by (simp add: strip_lower)
    also have "\<dots> = strip (lower t)" using h by simp
    also have "\<dots> = lower (strip t)" by (simp add: strip_lower)
    finally show "sanitize_email (JStr (l @ s @ r)) = sanitize_email (JStr t)"
      by (simp add: sanitize_email_eq py_str_JStr)
  qed
  have collide: "healthy ev \<and> healthy ev' \<and>
    sanitize_name n = Some nm \<and> sanitize_name n' = Some nm' \<and>
    sanitize_email a = Some em \<and> sanitize_email b = Some em \<and>
    em \<notin> set (map email (table d)) \<longrightarrow>
      (\<exists>d'. do_POST ev (signup_request n a) d =
              (Sent (joined (signup_request n a) em (int (length (table d)) + 1)), d') \<and>
            do_POST ev' (signup_request n' b) d' =
              (Sent (already_listed (signup_request n' b) (int (length (table d)) + 1)), d'))"
  proof
    assume h: "healthy ev \<and> healthy ev' \<and>
      sanitize_name n = Some nm \<and> sanitize_name n' = Some nm' \<and>
      sanitize_email a = Some em \<and> sanitize_email b = Some em \<and>
      em \<notin> set (map email (table d))"
    then have p: "passes_validation (signup_request n a) nm em"
      "passes_validation (signup_request n' b) nm' em"
      by (simp_all add: signup_request_passes)
    from h store_signup_then_duplicate[of ev ev' em d "signup_request n a" nm "signup_request n' b" nm']
    show "\<exists>d'. do_POST ev (signup_request n a) d =
              (Sent (joined (signup_request n a) em (int (length (table d)) + 1)), d') \<and>
            do_POST ev' (signup_request n' b) d' =
              (Sent (already_listed (signup_request n' b) (int (length (table d)) + 1)), d')"
      by (simp add: do_POST_valid[OF p(1)] do_POST_valid[OF p(2)])
  qed
  from idem pad collide sanitize_examples(3,4) show ?thesis by blast
qed

theorem email_normalization_idempotent_witness:
  "sanitize_email (JStr ''foo@bar.com'') = Some ''foo@bar.com'' \<and>
   sanitize_email (JStr ([CHR 0x09] @ ''FOO@bar.COM'' @ ''  '')) = Some ''foo@bar.com'' \<and>
   (\<exists>d'. do_POST (quiet ''2024-05-01 10:00:00'')
            (signup_request (JStr ''Ada'') (JStr ''  Foo@BAR.com ''))
            \<lparr>variant = Pooled, table = []\<rparr> =
          (Sent (joined (signup_request (JStr ''Ada'') (JStr ''  Foo@BAR.com '')) ''foo@bar.com'' 1),
           d') \<and>
         do_POST (quiet ''2024-05-01 10:00:09'')
            (signup_request (JStr ''Al'') (JStr ''foo@bar.com'')) d' =
          (Sent (already_listed (signup_request (JStr ''Al'') (JStr ''foo@bar.com'')) 1), d'))"
proof -
  note t = email_normalization_idempotent[of "JStr ''  Foo@BAR.com ''" "''foo@bar.com''"
      "[CHR 0x09]" "''  ''" "''FOO@bar.COM''" "''foo@bar.com''"
      "quiet ''2024-05-01 10:00:00''" "quiet ''2024-05-01 10:00:09''"
      "JStr ''Ada''" "''Ada''" "JStr ''Al''" "''Al''"
      "JStr ''  Foo@BAR.com ''" "''foo@bar.com''" "JStr ''foo@bar.com''"
      "\<lparr>variant = Pooled, table = []\<rparr>"]
  have ws: "list_all isspace [CHR 0x09]" "list_all isspace ''  ''"
    by (simp_all add: isspace_def whitespace_def)
  have lw: "lower ''FOO@bar.COM'' = lower ''foo@bar.com''"
    by (simp add: lower_def lower_char_def uppercase_def lowercase_def)
  from t ws lw sanitize_examples healthy_quiet show ?thesis by simp
qed

text \<open>
  C6. The claim has \<^verbatim>\<open>waitlist_entries\<close> return, for every table, the records newest
  first, all of them when the limit is absent or not positive and at most \<open>limit\<close> of
  them otherwise, and has \<^verbatim>\<open>GET /api/waitlist/entries\<close> ignore a \<^verbatim>\<open>limit\<close> parameter
  that is not a positive integer. The code does so for every limit below \<open>2 ^ 63\<close>
  (\<open>entries_newest_first_in_range\<close>, \<open>limit_parameter_ignored\<close>). It passes any positive
  limit on to the database unchecked: for the limit \<open>2 ^ 63\<close> the SQLite driver raises
  \<^verbatim>\<open>OverflowError\<close>, no rows are returned, and \<^verbatim>\<open>do_GET\<close>, which catches only the
  \<^verbatim>\<open>ValueError\<close> of a parameter that is not a number, sends no response.
\<close>

theorem large_limit_unhandled:
  "waitlist_entries None (Some 9223372036854775808) \<lparr>variant = Embedded, table = [ada, cyd, bob]\<rparr> =
     Inl (OverflowError ''Python int too large to convert to SQLite INTEGER'') \<and>
   py_int ''9223372036854775808'' = Some 9223372036854775808 \<and>
   do_GET (quiet ''2024-05-03 08:00:00'') (entries_request [''limit'' \<mapsto> ''9223372036854775808''])
       \<lparr>variant = Embedded, table = [ada, cyd, bob]\<rparr> =
     Raised (DatabaseError (OverflowError ''Python int too large to convert to SQLite INTEGER''))"
proof -
  have i: "py_int ''9223372036854775808'' = Some 9223372036854775808"
    by (simp add: eval_int)
  have w: "waitlist_entries None (Some 9223372036854775808)
      \<lparr>variant = Embedded, table = [ada, cyd, bob]\<rparr> =
     Inl (OverflowError ''Python int too large to convert to SQLite INTEGER'')"
    by (simp add: waitlist_entries_def sql_integer_bound_def)
  have "do_GET (quiet ''2024-05-03 08:00:00'') (entries_request [''limit'' \<mapsto> ''9223372036854775808''])
       \<lparr>variant = Embedded, table = [ada, cyd, bob]\<rparr> =
     Raised (DatabaseError (OverflowError ''Python int too large to convert to SQLite INTEGER''))"
    by (simp add: do_GET_def entries_request_def rstrip_def limit_of_def i quiet_def w)
  with i w show ?thesis by simp
qed

text \<open>
  C7, as amended. For every list of entries the CSV body is the header
  \<^verbatim>\<open>name,email,created_at\<close> followed, for each entry in the order of the list, by a line
  feed and the entry's three fields joined by commas, where a field has every double
  quote doubled and is wrapped in double quotes exactly when it holds a comma or a double
  quote. The first line of the body is the header. When no field holds a line feed, the
  lines of the body are the header and then one line per entry.
\<close>

theorem csv_body_rows:
  "csv_data entries =
     ''name,email,created_at'' @ concat (map (\<lambda>e. newline # csv_row e) entries) \<and>
   hd (lines_of (csv_data entries)) = ''name,email,created_at'' \<and>
   ((\<forall>e\<in>set entries. newline \<notin> set (name e @ email e @ created_at e)) \<longrightarrow>
      lines_of (csv_data entries) = ''name,email,created_at'' # map csv_row entries)"
proof -
  have "(\<forall>e\<in>set entries. newline \<notin> set (name e @ email e @ created_at e)) \<longrightarrow>
      lines_of (csv_data entries) = ''name,email,created_at'' # map csv_row entries"
  proof
    assume "\<forall>e\<in>set entries. newline \<notin> set (name e @ email e @ created_at e)"
    then have "\<forall>e\<in>set entries. newline \<notin> set (csv_row e)"
      using newline_row by blast
    from lines_of_rows[OF header_plain this]
    show "lines_of (csv_data entries) = ''name,email,created_at'' # map csv_row entries"
      by (simp only: csv_data_rows)
  qed
  moreover have "hd (lines_of (csv_data entries)) = ''name,email,created_at''"
    using hd_lines_of[OF header_plain] by (simp only: csv_data_rows)
  ultimately show ?thesis using csv_data_rows by blast
qed

theorem csv_body_rows_witness:
  "lines_of (csv_data [cyd, \<lparr>name = ''Hopper, Grace'', email = ''g@h.org'', created_at = ''t''\<rparr>]) =
     [''name,email,created_at'', ''Cyd,cyd@x.org,2024-05-02 09:30:00'',
      [dquote] @ ''Hopper, Grace'' @ [dquote] @ '',g@h.org,t'']"
proof -
  let ?g = "\<lparr>name = ''Hopper, Grace'', email = ''g@h.org'', created_at = ''t''\<rparr>"
  have "\<forall>e\<in>set [cyd, ?g]. newline \<notin> set (name e @ email e @ created_at e)"
    by (simp add: cyd_def newline_def)
  with csv_body_rows[of "[cyd, ?g]"]
  have "lines_of (csv_data [cyd, ?g]) = ''name,email,created_at'' # map csv_row [cyd, ?g]"
    by blast
  then show ?thesis
    by (simp add: csv_row_def quoted_def cyd_def dquote_def)
qed

text \<open>The claim as it was stated, one line per entry for every list of entries, fails for
  an entry whose name holds a line feed: the body of that one entry has three lines.\<close>

theorem csv_one_line_per_entry_counterexample:
  "lines_of (csv_data [multiline]) = [''name,email,created_at'', ''A'', ''B,a@b.c,t''] \<and>
   length (lines_of (csv_data [multiline])) \<noteq> 1 + length [multiline]"
  by (simp add: csv_data_def csv_line_def csv_value_def replace_def multiline_def
      newline_def dquote_def)




text \<open>
  C9. The claim has every storage error caught at the handler and turned into a JSON
  error response. \<^verbatim>\<open>do_POST\<close> does that for the insert (\<open>insert_failure_caught\<close>), but
  \<^verbatim>\<open>do_GET\<close> calls the backend outside any \<^verbatim>\<open>try\<close>: when the backend fails during
  \<^verbatim>\<open>GET /api/waitlist\<close> or \<^verbatim>\<open>GET /api/waitlist/entries\<close> the error leaves the handler
  and no response is sent.
\<close>

theorem storage_error_escapes_do_GET:
  "do_GET (failing ''connection lost'') count_request d =
     Raised (DatabaseError (OperationalError ''connection lost'')) \<and>
   do_GET (failing ''connection lost'') (entries_request Map.empty) d =
     Raised (DatabaseError (OperationalError ''connection lost''))"
  by (simp add: do_GET_def count_request_def entries_request_def failing_def rstrip_def
      waitlist_count_def waitlist_entries_def limit_of_def)

text \<open>
  C10. The sanitizers take a JSON value that is not a string by its \<^verbatim>\<open>str\<close> form: for
  every value other than \<^verbatim>\<open>None\<close> each of them returns what it returns on the string
  \<^verbatim>\<open>str(v)\<close>. The number 42 is accepted as the name \<^verbatim>\<open>"42"\<close>; a bool or a number as
  email is checked against the pattern as its text (and fails it), and a list holding one
  address is accepted as the text of the list.
\<close>

theorem sanitizers_coerce_to_text:
  "(v \<noteq> JNull \<longrightarrow>
      sanitize_name v = sanitize_name (JStr (py_str v)) \<and>
      sanitize_email v = sanitize_email (JStr (py_str v))) \<and>
   sanitize_name (JInt 42) = Some ''42'' \<and>
   sanitize_email (JBool True) = None \<and>
   sanitize_email (JInt 42) = None \<and>
   sanitize_email (JList [JStr ''a@b.c'']) = Some (''['' @ [squote] @ ''a@b.c'' @ [squote] @ '']'')"
proof -
  have "sanitize_name (JInt 42) = Some ''42''"
    by (simp add: eval_sanitize show_int_def decimal_digits_def)
  moreover have "sanitize_email (JBool True) = None"
    by (simp add: eval_sanitize)
  moreover have "sanitize_email (JInt 42) = None"
    by (simp add: eval_sanitize show_int_def decimal_digits_def)
  moreover have "sanitize_email (JList [JStr ''a@b.c'']) =
      Some (''['' @ [squote] @ ''a@b.c'' @ [squote] @ '']'')"
    by (simp add: eval_sanitize repr_str_def repr_char_def backslash_def printable_def Let_def)
  moreover have "v \<noteq> JNull \<longrightarrow>
      sanitize_name v = sanitize_name (JStr (py_str v)) \<and>
      sanitize_email v = sanitize_email (JStr (py_str v))"
    by (simp add: sanitize_name_def sanitize_email_def py_str_JStr)
  ultimately show ?thesis by simp
qed

theorem sanitizers_coerce_to_text_witness:
  "sanitize_name (JFloat ''4.5'') = Some ''4.5'' \<and>
   sanitize_email (JFloat ''4.5'') = sanitize_email (JStr ''4.5'')"
proof -
  have "py_str (JFloat ''4.5'') = ''4.5''" by (simp add: py_str_def)
  moreover have "sanitize_name (JStr ''4.5'') = Some ''4.5''"
    by (simp add: eval_sanitize)
  ultimately show ?thesis using sanitizers_coerce_to_text[of "JFloat ''4.5''"] by simp
qed

end
